theory Spec2Isabelle
  imports Main "HOL-Library.AList"
begin

section \<open>The relay server of dm-tool (server/index.js)\<close>

text \<open>
  The server keeps a table of sessions keyed by a normalized code. Each session has one
  host socket (the DM) and a map from player ids to player sockets. Every socket carries
  a role binding (\<open>clientInfo\<close>), a liveness flag (\<open>isAlive\<close>) and the transport's
  \<open>readyState\<close>. The handlers below are the functions of \<open>server/index.js\<close>, with the
  module's mutable state passed explicitly. \<open>console.log\<close> and \<open>console.error\<close> calls
  are omitted: they change nothing the handlers read.
\<close>

subsection \<open>JSON values as the handlers see them\<close>

text \<open>
  A frame is the result of \<open>JSON.parse\<close>. Numbers are carried opaquely; the handlers only
  ask for their \<open>typeof\<close> and truthiness. A property that is absent reads as
  \<open>undefined\<close>, modelled by \<open>None\<close>.
\<close>

datatype json =
    JNull
  | JBool bool
  | JNum int
  | JStr string
  | JArr "json list"
  | JObj "(string \<times> json) list"

datatype jstype = TUndefined | TObject | TBoolean | TNumber | TString

fun typeof :: "json option \<Rightarrow> jstype" where
  "typeof None = TUndefined"
| "typeof (Some JNull) = TObject"
| "typeof (Some (JBool b)) = TBoolean"
| "typeof (Some (JNum n)) = TNumber"
| "typeof (Some (JStr s)) = TString"
| "typeof (Some (JArr xs)) = TObject"
| "typeof (Some (JObj kvs)) = TObject"

fun truthy :: "json option \<Rightarrow> bool" where
  "truthy None = False"
| "truthy (Some JNull) = False"
| "truthy (Some (JBool b)) = b"
| "truthy (Some (JNum n)) = (n \<noteq> 0)"
| "truthy (Some (JStr s)) = (s \<noteq> [])"
| "truthy (Some (JArr xs)) = True"
| "truthy (Some (JObj kvs)) = True"

text \<open>
  Property access \<open>message.k\<close> for the keys the server reads (\<open>type\<close>, \<open>code\<close>,
  \<open>payload\<close>, \<open>playerId\<close>): on an object the last binding of a duplicated key wins,
  as in \<open>JSON.parse\<close>; arrays and primitives have none of these properties.
\<close>

fun getField :: "json \<Rightarrow> string \<Rightarrow> json option" where
  "getField (JObj kvs) k = map_of (rev kvs) k"
| "getField _ k = None"

subsection \<open>Session codes\<close>

text \<open>
  Strings are modelled over ASCII: \<open>trim\<close> removes the ECMAScript white space in that
  range (TAB, LF, VT, FF, CR, SPACE) from both ends and \<open>toUpperCase\<close> maps \<open>a\<close>..\<open>z\<close>
  to \<open>A\<close>..\<open>Z\<close>. Characters outside ASCII are left alone.
\<close>

definition isWhiteSpace :: "char \<Rightarrow> bool" where
  "isWhiteSpace c = (c \<in> set [CHR 0x09, CHR 0x0A, CHR 0x0B, CHR 0x0C, CHR 0x0D, CHR '' ''])"

definition trim :: "string \<Rightarrow> string" where
  "trim s = rev (dropWhile isWhiteSpace (rev (dropWhile isWhiteSpace s)))"

definition upperChar :: "char \<Rightarrow> char" where
  "upperChar c =
     (case map_of (zip ''abcdefghijklmnopqrstuvwxyz'' ''ABCDEFGHIJKLMNOPQRSTUVWXYZ'') c of
        Some u \<Rightarrow> u
      | None \<Rightarrow> c)"

definition toUpperCase :: "string \<Rightarrow> string" where
  "toUpperCase s = map upperChar s"

fun normalizeCode :: "json option \<Rightarrow> string" where
  "normalizeCode (Some (JStr s)) = toUpperCase (trim s)"
| "normalizeCode _ = []"

subsection \<open>Player ids\<close>

text \<open>
  \<open>Number.prototype.toString(36)\<close> on a non-negative integer.
\<close>

definition digit36 :: "nat \<Rightarrow> char" where
  "digit36 d = ''0123456789abcdefghijklmnopqrstuvwxyz'' ! d"

fun toString36 :: "nat \<Rightarrow> string" where
  "toString36 n = (if n < 36 then [digit36 n] else toString36 (n div 36) @ [digit36 (n mod 36)])"

declare toString36.simps [simp del]

text \<open>
  \<open>clientCounter += 1\<close> on a JavaScript number: exact below \<open>2^53\<close>; at \<open>2^53\<close> the sum
  rounds back to \<open>2^53\<close>.
\<close>

definition jsIncrement :: "nat \<Rightarrow> nat" where
  "jsIncrement c = (if c < 2 ^ 53 then c + 1 else c)"

definition formatClientId :: "nat \<Rightarrow> nat \<Rightarrow> string" where
  "formatClientId now counter = ''c-'' @ toString36 now @ ''-'' @ toString36 counter"

subsection \<open>Sockets, sessions and the server state\<close>

datatype readyState = CONNECTING | OPEN | CLOSING | CLOSED

text \<open>\<open>socket.clientInfo\<close>: \<open>{role: 'dm', code}\<close> or \<open>{role: 'player', code, playerId}\<close>.\<close>

datatype info = Dm string | Player string string

record socket =
  readyState :: readyState
  isAlive :: bool
  clientInfo :: "info option"

text \<open>
  Sockets are objects compared by identity; the model names each by a number.
  \<open>players\<close> is a JavaScript \<open>Map\<close>: an association list in insertion order with
  distinct keys (\<open>AList.update\<close> replaces in place or appends, as \<open>Map.set\<close> does).
\<close>

type_synonym sock = nat

record session =
  code :: string
  dm :: sock
  players :: "(string \<times> sock) list"

text \<open>Frames the server writes.\<close>

datatype outMsg =
    SessionError string
  | SessionCreated string
  | SessionJoined string string
  | PlayerJoined string
  | PlayerLeft string
  | RelayToDm string json
  | RelayToPlayer json
  | SessionClosed "string option"

text \<open>
  \<open>sessions\<close> is the module's \<open>Map\<close> of sessions, \<open>socks\<close> the fields of every socket
  object, \<open>clients\<close> the server's \<open>wss.clients\<close> in insertion order, \<open>nextSock\<close> the
  name the next accepted connection gets. \<open>outbox\<close> lists the JSON frames handed to the
  transport, oldest first, each with the socket it was written to; \<open>probes\<close> lists
  the sockets pinged.
\<close>

record state =
  sessions :: "string \<rightharpoonup> session"
  socks :: "sock \<Rightarrow> socket"
  clients :: "sock list"
  nextSock :: sock
  clientCounter :: nat
  outbox :: "(sock \<times> outMsg) list"
  probes :: "sock list"

definition initSocket :: socket where
  "initSocket = \<lparr>readyState = OPEN, isAlive = True, clientInfo = None\<rparr>"

definition initState :: state where
  "initState = \<lparr>sessions = Map.empty, socks = (\<lambda>_. initSocket), clients = [], nextSock = 0,
     clientCounter = 0, outbox = [], probes = []\<rparr>"

definition ready :: "state \<Rightarrow> sock \<Rightarrow> readyState" where
  "ready st s = readyState (socks st s)"

definition infoOf :: "state \<Rightarrow> sock \<Rightarrow> info option" where
  "infoOf st s = clientInfo (socks st s)"

definition setClientInfo :: "sock \<Rightarrow> info option \<Rightarrow> state \<Rightarrow> state" where
  "setClientInfo s i st = st\<lparr>socks := (socks st)(s := (socks st s)\<lparr>clientInfo := i\<rparr>)\<rparr>"

definition setReady :: "sock \<Rightarrow> readyState \<Rightarrow> state \<Rightarrow> state" where
  "setReady s r st = st\<lparr>socks := (socks st)(s := (socks st s)\<lparr>readyState := r\<rparr>)\<rparr>"

definition setAlive :: "sock \<Rightarrow> bool \<Rightarrow> state \<Rightarrow> state" where
  "setAlive s b st = st\<lparr>socks := (socks st)(s := (socks st s)\<lparr>isAlive := b\<rparr>)\<rparr>"

subsection \<open>The transport (the ws library)\<close>

text \<open>
  \<open>socket.close()\<close> starts the closing handshake and \<open>socket.terminate()\<close> destroys the
  connection: either moves a socket that is not yet closed to \<open>CLOSING\<close>. The \<open>close\<close>
  event, which comes later, finds it \<open>CLOSED\<close>. \<open>socket.ping()\<close> writes a probe only
  on an open socket.
\<close>

definition socketClose :: "sock \<Rightarrow> state \<Rightarrow> state" where
  "socketClose s st = (if ready st s = CLOSED then st else setReady s CLOSING st)"

definition socketTerminate :: "sock \<Rightarrow> state \<Rightarrow> state" where
  "socketTerminate s st = (if ready st s = CLOSED then st else setReady s CLOSING st)"

definition socketPing :: "sock \<Rightarrow> state \<Rightarrow> state" where
  "socketPing s st = (if ready st s = OPEN then st\<lparr>probes := probes st @ [s]\<rparr> else st)"

subsection \<open>The handlers\<close>

text \<open>\<open>createClientId(now)\<close>, with \<open>now\<close> the value of \<open>Date.now()\<close>.\<close>

definition createClientId :: "nat \<Rightarrow> state \<Rightarrow> string \<times> state" where
  "createClientId now st =
     (let c = jsIncrement (clientCounter st)
      in (formatClientId now c, st\<lparr>clientCounter := c\<rparr>))"

text \<open>
  \<open>safeSend\<close> writes the frame only to an open socket, where \<open>send\<close> is taken to
  succeed. Its boolean result is used by no caller and is left out.
\<close>

definition safeSend :: "sock \<Rightarrow> outMsg \<Rightarrow> state \<Rightarrow> state" where
  "safeSend s m st = (if ready st s \<noteq> OPEN then st else st\<lparr>outbox := outbox st @ [(s, m)]\<rparr>)"

text \<open>The body of the \<open>forEach\<close> in \<open>endSession\<close>, for one player socket.\<close>

definition endPlayer :: "string \<Rightarrow> sock \<Rightarrow> state \<Rightarrow> state" where
  "endPlayer reason p st =
     setClientInfo p None (socketClose p (safeSend p (SessionClosed (Some reason)) st))"

text \<open>
  \<open>endSession\<close> unregisters the session object first; the final \<open>players.clear()\<close>
  then empties an object the table no longer holds.
\<close>

definition endSession :: "session \<Rightarrow> string \<Rightarrow> state \<Rightarrow> state" where
  "endSession sess reason st =
     fold (\<lambda>(pid, p). endPlayer reason p) (players sess)
       (st\<lparr>sessions := (sessions st)(code sess := None)\<rparr>)"

text \<open>The loop of \<open>endSession\<close> on its own, over a list of entries.\<close>

definition endAll :: "string \<Rightarrow> (string \<times> sock) list \<Rightarrow> state \<Rightarrow> state" where
  "endAll r ps st = fold (\<lambda>(pid, p). endPlayer r p) ps st"

text \<open>
  \<open>detachClient(socket, {reason, silent})\<close>, with \<open>reason\<close> \<open>None\<close> when the caller gives
  none. \<open>reasonOr\<close> is \<open>reason || dflt\<close>; \<open>detachRole\<close> is the branch on \<open>info.role\<close> in the
  middle of the function.
\<close>

definition reasonOr :: "string option \<Rightarrow> string \<Rightarrow> string" where
  "reasonOr reason dflt = (case reason of None \<Rightarrow> dflt | Some r \<Rightarrow> if r = [] then dflt else r)"

definition detachRole :: "sock \<Rightarrow> info \<Rightarrow> string option \<Rightarrow> state \<Rightarrow> state" where
  "detachRole s i reason st =
     (case i of
        Dm c \<Rightarrow>
          (case sessions st c of
             None \<Rightarrow> st
           | Some sess \<Rightarrow>
               if dm sess = s then endSession sess (reasonOr reason ''The DM disconnected.'') st
               else st)
      | Player c pid \<Rightarrow>
          (case sessions st c of
             None \<Rightarrow> st
           | Some sess \<Rightarrow>
               if map_of (players sess) pid = Some s then
                 (let st1 = st\<lparr>sessions := (sessions st)(c \<mapsto>
                               sess\<lparr>players := AList.delete pid (players sess)\<rparr>)\<rparr>
                  in if ready st1 (dm sess) = OPEN then safeSend (dm sess) (PlayerLeft pid) st1
                     else st1)
               else st))"

definition detachClient :: "sock \<Rightarrow> string option \<Rightarrow> bool \<Rightarrow> state \<Rightarrow> state" where
  "detachClient s reason silent st =
     (case infoOf st s of
        None \<Rightarrow> st
      | Some i \<Rightarrow>
          (let st1 = detachRole s i reason st;
               st2 = setClientInfo s None st1
           in if \<not> silent \<and> ready st2 s = OPEN then socketClose s st2 else st2))"

definition msgInvalidCreate :: string where
  "msgInvalidCreate = ''Invalid session code. Refresh the page and try again.''"

definition msgAlreadyHosting :: string where
  "msgAlreadyHosting = ''You are already hosting a session.''"

definition msgSessionExists :: string where
  "msgSessionExists = ''A session with that code already exists.''"

definition msgInvalidJoin :: string where
  "msgInvalidJoin = ''Enter a valid session code from your DM.''"

definition msgSessionNotFound :: string where
  "msgSessionNotFound = ''Session not found. Ask your DM for a new code.''"

definition isDm :: "info option \<Rightarrow> bool" where
  "isDm i = (case i of Some (Dm c) \<Rightarrow> True | _ \<Rightarrow> False)"

definition handleCreateSession :: "sock \<Rightarrow> json \<Rightarrow> state \<Rightarrow> state" where
  "handleCreateSession s message st =
     (let c = normalizeCode (getField message ''code'') in
      if c = [] then safeSend s (SessionError msgInvalidCreate) st
      else if isDm (infoOf st s) then safeSend s (SessionError msgAlreadyHosting) st
      else if sessions st c \<noteq> None then safeSend s (SessionError msgSessionExists) st
      else
        (let st1 = st\<lparr>sessions := (sessions st)(c \<mapsto> \<lparr>code = c, dm = s, players = []\<rparr>)\<rparr>;
             st2 = setClientInfo s (Some (Dm c)) st1
         in safeSend s (SessionCreated c) st2))"

text \<open>
  \<open>session.players.set(playerId, socket)\<close> in \<open>handleJoinSession\<close> writes to the session
  object read before \<open>detachClient\<close> ran. \<open>detachClient\<close> registers no session, so the
  table's entry for the code, when there still is one, is that object. When the joining
  socket was this session's own host, \<open>detachClient\<close> has unregistered the object and the
  write goes to an object nothing refers to any more.
\<close>

definition playersSet :: "string \<Rightarrow> string \<Rightarrow> sock \<Rightarrow> state \<Rightarrow> state" where
  "playersSet c pid s st =
     (case sessions st c of
        None \<Rightarrow> st
      | Some cur \<Rightarrow>
          st\<lparr>sessions := (sessions st)(c \<mapsto> cur\<lparr>players := AList.update pid s (players cur)\<rparr>)\<rparr>)"

definition handleJoinSession :: "sock \<Rightarrow> json \<Rightarrow> nat \<Rightarrow> state \<Rightarrow> state" where
  "handleJoinSession s message now st =
     (let c = normalizeCode (getField message ''code'') in
      if c = [] then safeSend s (SessionError msgInvalidJoin) st
      else
        (case sessions st c of
           None \<Rightarrow> safeSend s (SessionError msgSessionNotFound) st
         | Some sess \<Rightarrow>
             if ready st (dm sess) \<noteq> OPEN then safeSend s (SessionError msgSessionNotFound) st
             else
               (let st1 = (if infoOf st s \<noteq> None then detachClient s None True st else st);
                    (playerId, st2) = createClientId now st1;
                    st3 = playersSet c playerId s st2;
                    st4 = setClientInfo s (Some (Player c playerId)) st3;
                    st5 = safeSend s (SessionJoined c playerId) st4
                in safeSend (dm sess) (PlayerJoined playerId) st5)))"

definition relayFromPlayer :: "sock \<Rightarrow> json \<Rightarrow> state \<Rightarrow> state" where
  "relayFromPlayer s message st =
     (case infoOf st s of
        Some (Player c pid) \<Rightarrow>
          (case sessions st c of
             None \<Rightarrow>
               detachClient s (Some ''Session unavailable.'') False
                 (safeSend s (SessionClosed None) st)
           | Some sess \<Rightarrow>
               if ready st (dm sess) \<noteq> OPEN then
                 detachClient s (Some ''Session unavailable.'') False
                   (safeSend s (SessionClosed None) st)
               else
                 (case getField message ''payload'' of
                    None \<Rightarrow> st
                  | Some payload \<Rightarrow>
                      if typeof (Some payload) \<noteq> TObject then st
                      else safeSend (dm sess) (RelayToDm pid payload) st))
      | _ \<Rightarrow> st)"

definition relayFromDm :: "sock \<Rightarrow> json \<Rightarrow> state \<Rightarrow> state" where
  "relayFromDm s message st =
     (case infoOf st s of
        Some (Dm c) \<Rightarrow>
          (case sessions st c of
             None \<Rightarrow> st
           | Some sess \<Rightarrow>
               (case getField message ''payload'' of
                  None \<Rightarrow> st
                | Some payload \<Rightarrow>
                    if \<not> truthy (Some payload) \<or> typeof (Some payload) \<noteq> TObject then st
                    else
                      (case getField message ''playerId'' of
                         Some (JStr pid) \<Rightarrow>
                           if pid \<noteq> [] then
                             (case map_of (players sess) pid of
                                None \<Rightarrow> st
                              | Some target \<Rightarrow> safeSend target (RelayToPlayer payload) st)
                           else
                             fold (\<lambda>(k, p). safeSend p (RelayToPlayer payload)) (players sess) st
                       | _ \<Rightarrow>
                           fold (\<lambda>(k, p). safeSend p (RelayToPlayer payload)) (players sess) st)))
      | _ \<Rightarrow> st)"

definition handleCloseSession :: "sock \<Rightarrow> state \<Rightarrow> state" where
  "handleCloseSession s st =
     (case infoOf st s of
        Some (Dm c) \<Rightarrow>
          (case sessions st c of
             None \<Rightarrow> st
           | Some sess \<Rightarrow>
               if dm sess \<noteq> s then st
               else setClientInfo s None (endSession sess ''The DM closed the session.'' st))
      | _ \<Rightarrow> st)"

subsection \<open>The event callbacks\<close>

text \<open>
  \<open>wss.on('connection')\<close>: the server adds the new socket, open, to \<open>wss.clients\<close> and
  the callback initialises its fields.
\<close>

definition onConnection :: "state \<Rightarrow> state" where
  "onConnection st =
     (let s = nextSock st in
      st\<lparr>socks := (socks st)(s := \<lparr>readyState = OPEN, isAlive = True, clientInfo = None\<rparr>),
         clients := clients st @ [s],
         nextSock := Suc s\<rparr>)"

definition onPong :: "sock \<Rightarrow> state \<Rightarrow> state" where
  "onPong s st = setAlive s True st"

text \<open>
  \<open>socket.on('message')\<close>, given the outcome of \<open>JSON.parse\<close> (\<open>None\<close> when it throws) and
  the clock reading a join would take.
\<close>

definition onMessage :: "sock \<Rightarrow> json option \<Rightarrow> nat \<Rightarrow> state \<Rightarrow> state" where
  "onMessage s parsed now st =
     (case parsed of
        None \<Rightarrow> st
      | Some message \<Rightarrow>
          if \<not> truthy (Some message) \<or> typeof (Some message) \<noteq> TObject then st
          else
            (case getField message ''type'' of
               Some (JStr t) \<Rightarrow>
                 if t = ''create-session'' then handleCreateSession s message st
                 else if t = ''join-session'' then handleJoinSession s message now st
                 else if t = ''relay'' then
                   (if isDm (infoOf st s) then relayFromDm s message st
                    else relayFromPlayer s message st)
                 else if t = ''close-session'' then handleCloseSession s st
                 else st
             | _ \<Rightarrow> st))"

text \<open>
  A frame that \<open>onMessage\<close> dispatches on the type tag \<open>t\<close>: a non-null object whose
  \<open>type\<close> property is the string \<open>t\<close>.
\<close>

definition isFrame :: "string \<Rightarrow> json \<Rightarrow> bool" where
  "isFrame t m = (truthy (Some m) \<and> typeof (Some m) = TObject \<and> getField m ''type'' = Some (JStr t))"

text \<open>
  The payload test of \<open>relayFromDm\<close>, \<open>payload && typeof payload === 'object'\<close>: an
  object or an array.
\<close>

definition structured :: "json option \<Rightarrow> bool" where
  "structured v = (truthy v \<and> typeof v = TObject)"

text \<open>
  \<open>socket.on('close')\<close>: by then the transport has closed the socket and the server has
  taken it out of \<open>wss.clients\<close>.
\<close>

definition onClose :: "sock \<Rightarrow> state \<Rightarrow> state" where
  "onClose s st =
     detachClient s None True
       ((setReady s CLOSED st)\<lparr>clients := removeAll s (clients st)\<rparr>)"

text \<open>The heartbeat callback for one socket, and the tick over \<open>wss.clients\<close>.\<close>

definition heartbeatSocket :: "sock \<Rightarrow> state \<Rightarrow> state" where
  "heartbeatSocket s st =
     (if \<not> isAlive (socks st s) then
        socketTerminate s (detachClient s (Some ''Connection timed out.'') True st)
      else socketPing s (setAlive s False st))"

definition heartbeat :: "state \<Rightarrow> state" where
  "heartbeat st = fold heartbeatSocket (clients st) st"

text \<open>
  The states the server can be in: from the initial state, any interleaving of the
  callbacks on connected sockets, and of the transport moving a connected socket to
  \<open>CLOSING\<close> when the peer closes or the connection fails.
\<close>

inductive reachable :: "state \<Rightarrow> bool" where
  r_init: "reachable initState"
| r_connection: "reachable st \<Longrightarrow> reachable (onConnection st)"
| r_message: "reachable st \<Longrightarrow> s \<in> set (clients st) \<Longrightarrow> reachable (onMessage s parsed now st)"
| r_pong: "reachable st \<Longrightarrow> s \<in> set (clients st) \<Longrightarrow> reachable (onPong s st)"
| r_closing: "reachable st \<Longrightarrow> s \<in> set (clients st) \<Longrightarrow> reachable (setReady s CLOSING st)"
| r_close: "reachable st \<Longrightarrow> s \<in> set (clients st) \<Longrightarrow> reachable (onClose s st)"
| r_tick: "reachable st \<Longrightarrow> reachable (heartbeat st)"

subsection \<open>Invariants of the reachable states\<close>

text \<open>
  \<open>issued st pid\<close>: the id \<open>pid\<close> is one \<open>createClientId\<close> has returned so far, at some
  clock reading and at a counter value not above the current one.
\<close>

definition issued :: "state \<Rightarrow> string \<Rightarrow> bool" where
  "issued st pid = (\<exists>now n. n \<le> clientCounter st \<and> pid = formatClientId now n)"

text \<open>
  The table stores every session under its own, non-empty code, and every connection
  bound as host of a code is the host of the session registered under that code.
\<close>

definition tableInv :: "state \<Rightarrow> bool" where
  "tableInv st =
     ((\<forall>c sess. sessions st c = Some sess \<longrightarrow> code sess = c \<and> c \<noteq> [])
      \<and> (\<forall>s c. infoOf st s = Some (Dm c) \<longrightarrow> (\<exists>sess. sessions st c = Some sess \<and> dm sess = s)))"

text \<open>Every player id in a player map or in a binding has been issued.\<close>

definition idsInv :: "state \<Rightarrow> bool" where
  "idsInv st =
     ((\<forall>c sess pid p. sessions st c = Some sess \<longrightarrow> (pid, p) \<in> set (players sess) \<longrightarrow> issued st pid)
      \<and> (\<forall>s c pid. infoOf st s = Some (Player c pid) \<longrightarrow> issued st pid))"

text \<open>
  \<open>entryGone st c pid s\<close>: the session registered under \<open>c\<close>, if there is one, does
  not map the player id \<open>pid\<close> to the socket \<open>s\<close>.
\<close>

definition entryGone :: "state \<Rightarrow> string \<Rightarrow> string \<Rightarrow> sock \<Rightarrow> bool" where
  "entryGone st c pid s = (\<forall>sess. sessions st c = Some sess \<longrightarrow> map_of (players sess) pid \<noteq> Some s)"

subsection \<open>Example frames and states\<close>

text \<open>
  Three connections \<open>0\<close>, \<open>1\<close>, \<open>2\<close>; \<open>0\<close> hosts the code \<open>ABC123\<close>; \<open>1\<close> joins
  it; then the host's transport starts closing while its \<open>close\<close> event is still to come.
\<close>

definition exCreate :: json where
  "exCreate = JObj [(''type'', JStr ''create-session''), (''code'', JStr '' abc123 '')]"

definition exJoin :: json where
  "exJoin = JObj [(''type'', JStr ''join-session''), (''code'', JStr ''ABC123'')]"

definition exRelay :: json where
  "exRelay = JObj [(''type'', JStr ''relay''), (''payload'', JObj [(''initiative'', JNum 12)])]"

definition exHosted :: state where
  "exHosted = onMessage 0 (Some exCreate) 0 (onConnection (onConnection (onConnection initState)))"

definition exJoined :: state where
  "exJoined = onMessage 1 (Some exJoin) 1000 exHosted"

definition exDeadHost :: state where
  "exDeadHost = setReady 0 CLOSING exJoined"

text \<open>A second participant, \<open>2\<close>, joins; frames the host and the participants send.\<close>

definition exTwoPlayers :: state where
  "exTwoPlayers = onMessage 2 (Some exJoin) 2000 exJoined"

definition exRelayTo :: json where
  "exRelayTo = JObj [(''type'', JStr ''relay''), (''playerId'', JStr ''c-rs-1''),
     (''payload'', JObj [(''initiative'', JNum 12)])]"

definition exRelayBadId :: json where
  "exRelayBadId = JObj [(''type'', JStr ''relay''), (''playerId'', JNum 7),
     (''payload'', JObj [(''initiative'', JNum 9)])]"

definition exPing :: json where
  "exPing = JObj [(''type'', JStr ''relay'')]"

definition exCreateOther :: json where
  "exCreateOther = JObj [(''type'', JStr ''create-session''), (''code'', JStr ''xyz'')]"

definition exCreateAgain :: json where
  "exCreateAgain = JObj [(''type'', JStr ''create-session''), (''code'', JStr ''Abc123'')]"

definition exClose :: json where
  "exClose = JObj [(''type'', JStr ''close-session'')]"

text \<open>
  Participant 1 creates a session of its own; the host of \<open>ABC123\<close> then closes that
  session; the \<open>close\<close> event of connection 1 follows.
\<close>

definition exSecondHost :: state where
  "exSecondHost = onMessage 1 (Some exCreateOther) 0 exJoined"

definition exLeaked :: state where
  "exLeaked = onClose 1 (onMessage 0 (Some exClose) 0 exSecondHost)"

text \<open>
  Two ticks of the heartbeat with no pong in between, from the state with host 0 and
  participants 1 and 2: the first tick clears every liveness flag.
\<close>

definition exSilent :: state where
  "exSilent = heartbeat exTwoPlayers"

section \<open>Basic facts about the state updates\<close>

lemma sessions_prims [simp]:
  "sessions (setClientInfo s i st) = sessions st"
  "sessions (setReady s r st) = sessions st"
  "sessions (setAlive s b st) = sessions st"
  "sessions (safeSend s m st) = sessions st"
  "sessions (socketClose s st) = sessions st"
  "sessions (socketTerminate s st) = sessions st"
  "sessions (socketPing s st) = sessions st"
  by (simp_all add: setClientInfo_def setReady_def setAlive_def safeSend_def socketClose_def
      socketTerminate_def socketPing_def)

lemma counter_prims [simp]:
  "clientCounter (setClientInfo s i st) = clientCounter st"
  "clientCounter (setReady s r st) = clientCounter st"
  "clientCounter (setAlive s b st) = clientCounter st"
  "clientCounter (safeSend s m st) = clientCounter st"
  "clientCounter (socketClose s st) = clientCounter st"
  "clientCounter (socketTerminate s st) = clientCounter st"
  "clientCounter (socketPing s st) = clientCounter st"
  by (simp_all add: setClientInfo_def setReady_def setAlive_def safeSend_def socketClose_def
      socketTerminate_def socketPing_def)

lemma clients_prims [simp]:
  "clients (setClientInfo s i st) = clients st"
  "clients (setReady s r st) = clients st"
  "clients (setAlive s b st) = clients st"
  "clients (safeSend s m st) = clients st"
  "clients (socketClose s st) = clients st"
  "clients (socketTerminate s st) = clients st"
  "clients (socketPing s st) = clients st"
  by (simp_all add: setClientInfo_def setReady_def setAlive_def safeSend_def socketClose_def
      socketTerminate_def socketPing_def)

lemma outbox_prims [simp]:
  "outbox (setClientInfo s i st) = outbox st"
  "outbox (setReady s r st) = outbox st"
  "outbox (setAlive s b st) = outbox st"
  "outbox (socketClose s st) = outbox st"
  "outbox (socketTerminate s st) = outbox st"
  "outbox (socketPing s st) = outbox st"
  "outbox (safeSend s m st) = outbox st @ (if ready st s = OPEN then [(s, m)] else [])"
  by (simp_all add: setClientInfo_def setReady_def setAlive_def safeSend_def socketClose_def
      socketTerminate_def socketPing_def)

lemma infoOf_prims [simp]:
  "infoOf (setClientInfo s i st) t = (if t = s then i else infoOf st t)"
  "infoOf (setReady s r st) t = infoOf st t"
  "infoOf (setAlive s b st) t = infoOf st t"
  "infoOf (safeSend s m st) t = infoOf st t"
  "infoOf (socketClose s st) t = infoOf st t"
  "infoOf (socketTerminate s st) t = infoOf st t"
  "infoOf (socketPing s st) t = infoOf st t"
  by (simp_all add: infoOf_def setClientInfo_def setReady_def setAlive_def safeSend_def
      socketClose_def socketTerminate_def socketPing_def)

lemma ready_prims [simp]:
  "ready (setClientInfo s i st) t = ready st t"
  "ready (setReady s r st) t = (if t = s then r else ready st t)"
  "ready (setAlive s b st) t = ready st t"
  "ready (safeSend s m st) t = ready st t"
  "ready (socketClose s st) t = (if t = s \<and> ready st s \<noteq> CLOSED then CLOSING else ready st t)"
  "ready (socketTerminate s st) t = (if t = s \<and> ready st s \<noteq> CLOSED then CLOSING else ready st t)"
  "ready (socketPing s st) t = ready st t"
  by (simp_all add: ready_def setClientInfo_def setReady_def setAlive_def safeSend_def
      socketClose_def socketTerminate_def socketPing_def)

lemma alive_prims [simp]:
  "isAlive (socks (setClientInfo s i st) t) = isAlive (socks st t)"
  "isAlive (socks (setReady s r st) t) = isAlive (socks st t)"
  "isAlive (socks (setAlive s b st) t) = (if t = s then b else isAlive (socks st t))"
  "isAlive (socks (safeSend s m st) t) = isAlive (socks st t)"
  "isAlive (socks (socketClose s st) t) = isAlive (socks st t)"
  "isAlive (socks (socketTerminate s st) t) = isAlive (socks st t)"
  "isAlive (socks (socketPing s st) t) = isAlive (socks st t)"
  by (simp_all add: ready_def setClientInfo_def setReady_def setAlive_def safeSend_def
      socketClose_def socketTerminate_def socketPing_def)


lemma fold_safeSend:
  "fold (\<lambda>(k, p). safeSend p (f k p)) ps st =
     st\<lparr>outbox := outbox st @ map (\<lambda>(k, p). (p, f k p)) (filter (\<lambda>(k, p). ready st p = OPEN) ps)\<rparr>"
proof (induction ps arbitrary: st)
  case Nil
  show ?case by simp
next
  case (Cons a ps)
  obtain k p where a: "a = (k, p)" by (cases a)
  show ?case
    by (simp add: a Cons.IH) (simp add: safeSend_def)
qed

lemma relayFromDm_targeted:
  assumes "infoOf st s = Some (Dm c)" "sessions st c = Some sess"
    "getField m ''payload'' = Some payload" "truthy (Some payload)" "typeof (Some payload) = TObject"
    "getField m ''playerId'' = Some (JStr pid)" "pid \<noteq> []"
  shows "relayFromDm s m st = st\<lparr>outbox := outbox st @
            (case map_of (players sess) pid of
               None \<Rightarrow> []
             | Some target \<Rightarrow> if ready st target = OPEN then [(target, RelayToPlayer payload)] else [])\<rparr>"
  using assms by (simp add: relayFromDm_def safeSend_def split: option.splits)

lemma relayFromDm_broadcast:
  assumes "infoOf st s = Some (Dm c)" "sessions st c = Some sess"
    "getField m ''payload'' = Some payload" "truthy (Some payload)" "typeof (Some payload) = TObject"
    "\<forall>pid. getField m ''playerId'' = Some (JStr pid) \<longrightarrow> pid = []"
  shows "relayFromDm s m st = st\<lparr>outbox := outbox st @
            map (\<lambda>(k, p). (p, RelayToPlayer payload)) (filter (\<lambda>(k, p). ready st p = OPEN) (players sess))\<rparr>"
  using assms by (simp add: relayFromDm_def fold_safeSend split: option.splits json.splits)


lemma onMessage_relay_player:
  assumes "typeof (Some m) = TObject" "truthy (Some m)" "getField m ''type'' = Some (JStr ''relay'')"
     "\<not> isDm (infoOf st s)"
  shows "onMessage s (Some m) now st = relayFromPlayer s m st"
  using assms by (simp add: onMessage_def)

lemma endPlayer_fields [simp]:
  "sessions (endPlayer r p st) = sessions st"
  "clientCounter (endPlayer r p st) = clientCounter st"
  "clients (endPlayer r p st) = clients st"
  "infoOf (endPlayer r p st) t = (if t = p then None else infoOf st t)"
  "ready (endPlayer r p st) t = (if t = p \<and> ready st p \<noteq> CLOSED then CLOSING else ready st t)"
  "isAlive (socks (endPlayer r p st) t) = isAlive (socks st t)"
  "outbox (endPlayer r p st) = outbox st @ (if ready st p = OPEN then [(p, SessionClosed (Some r))] else [])"
  by (simp_all add: endPlayer_def)

lemma endAll_simps [simp]:
  "endAll r [] st = st"
  "endAll r ((k, p) # ps) st = endAll r ps (endPlayer r p st)"
  by (simp_all add: endAll_def)

lemma endAll_fields [simp]:
  "sessions (endAll r ps st) = sessions st"
  "clientCounter (endAll r ps st) = clientCounter st"
  "clients (endAll r ps st) = clients st"
  "isAlive (socks (endAll r ps st) t) = isAlive (socks st t)"
  by (induction ps arbitrary: st; force)+

lemma endAll_infoOf [simp]:
  "infoOf (endAll r ps st) t = (if t \<in> snd ` set ps then None else infoOf st t)"
  by (induction ps arbitrary: st) (force+)

lemma endAll_ready [simp]:
  "ready (endAll r ps st) t =
     (if t \<in> snd ` set ps \<and> ready st t \<noteq> CLOSED then CLOSING else ready st t)"
  by (induction ps arbitrary: st) (force+)

lemma endAll_outbox:
  "\<exists>qs. outbox (endAll r ps st) = outbox st @ map (\<lambda>p. (p, SessionClosed (Some r))) qs
        \<and> distinct qs \<and> set qs = {p \<in> snd ` set ps. ready st p = OPEN}"
proof (induction ps arbitrary: st)
  case Nil
  show ?case by simp
next
  case (Cons a ps)
  obtain k p where a: "a = (k, p)" by (cases a)
  from Cons.IH [of "endPlayer r p st"] obtain qs where
    qs: "outbox (endAll r ps (endPlayer r p st)) =
           outbox (endPlayer r p st) @ map (\<lambda>p. (p, SessionClosed (Some r))) qs"
      "distinct qs" "set qs = {q \<in> snd ` set ps. ready (endPlayer r p st) q = OPEN}"
    by blast
  have notp: "p \<notin> set qs" using qs(3) by auto
  have rest: "set qs = {q \<in> snd ` set ps. q \<noteq> p \<and> ready st q = OPEN}"
    using qs(3) by auto
  let ?qs = "(if ready st p = OPEN then [p] else []) @ qs"
  have "outbox (endAll r (a # ps) st) = outbox st @ map (\<lambda>p. (p, SessionClosed (Some r))) ?qs"
    using qs(1) by (simp add: a)
  moreover have "distinct ?qs" using qs(2) notp by simp
  moreover have "set ?qs = {q \<in> snd ` set (a # ps). ready st q = OPEN}"
    using rest by (auto simp: a)
  ultimately show ?case by blast
qed

lemma endSession_eq: "endSession sess r st = endAll r (players sess) (st\<lparr>sessions := (sessions st)(code sess := None)\<rparr>)"
  by (simp add: endSession_def endAll_def)

lemma upd_sessions_fields [simp]:
  "infoOf (st\<lparr>sessions := x\<rparr>) t = infoOf st t"
  "ready (st\<lparr>sessions := x\<rparr>) t = ready st t"
  "infoOf (st\<lparr>outbox := y\<rparr>) t = infoOf st t"
  "ready (st\<lparr>outbox := y\<rparr>) t = ready st t"
  "infoOf (st\<lparr>clientCounter := z\<rparr>) t = infoOf st t"
  "ready (st\<lparr>clientCounter := z\<rparr>) t = ready st t"
  "infoOf (st\<lparr>clients := w\<rparr>) t = infoOf st t"
  "ready (st\<lparr>clients := w\<rparr>) t = ready st t"
  by (simp_all add: infoOf_def ready_def)

lemma endSession_fields [simp]:
  "sessions (endSession sess r st) = (sessions st)(code sess := None)"
  "clientCounter (endSession sess r st) = clientCounter st"
  "clients (endSession sess r st) = clients st"
  "isAlive (socks (endSession sess r st) t) = isAlive (socks st t)"
  "infoOf (endSession sess r st) t = (if t \<in> snd ` set (players sess) then None else infoOf st t)"
  "ready (endSession sess r st) t =
     (if t \<in> snd ` set (players sess) \<and> ready st t \<noteq> CLOSED then CLOSING else ready st t)"
  by (simp_all add: endSession_eq)

lemma endSession_outbox:
  "\<exists>qs. outbox (endSession sess r st) = outbox st @ map (\<lambda>p. (p, SessionClosed (Some r))) qs
        \<and> distinct qs \<and> set qs = {p \<in> snd ` set (players sess). ready st p = OPEN}"
  using endAll_outbox [of r "players sess" "st\<lparr>sessions := (sessions st)(code sess := None)\<rparr>"]
  by (simp add: endSession_eq)



lemmas run_defs = onMessage_def handleCreateSession_def handleJoinSession_def relayFromPlayer_def
  relayFromDm_def handleCloseSession_def detachClient_def detachRole_def endSession_def endPlayer_def
  onConnection_def onClose_def heartbeat_def heartbeatSocket_def createClientId_def formatClientId_def
  jsIncrement_def playersSet_def safeSend_def setClientInfo_def setReady_def setAlive_def
  socketClose_def socketTerminate_def socketPing_def initState_def initSocket_def ready_def infoOf_def
  isDm_def reasonOr_def trim_def toUpperCase_def upperChar_def isWhiteSpace_def digit36_def
  toString36.simps Let_def

lemmas ex_defs = exCreate_def exJoin_def exRelay_def exHosted_def exJoined_def exDeadHost_def
  exTwoPlayers_def exRelayTo_def exRelayBadId_def exPing_def exCreateOther_def exCreateAgain_def
  exClose_def exSecondHost_def exLeaked_def exSilent_def

lemma exJoined_fields:
  "sessions exJoined ''ABC123'' = Some \<lparr>code = ''ABC123'', dm = 0, players = [(''c-rs-1'', 1)]\<rparr>"
  "infoOf exJoined 0 = Some (Dm ''ABC123'')"
  "infoOf exJoined 1 = Some (Player ''ABC123'' ''c-rs-1'')"
  "infoOf exJoined 2 = None"
  "ready exJoined 0 = OPEN" "ready exJoined 1 = OPEN" "ready exJoined 2 = OPEN"
  "outbox exJoined = [(0, SessionCreated ''ABC123''), (1, SessionJoined ''ABC123'' ''c-rs-1''),
      (0, PlayerJoined ''c-rs-1'')]"
  by (simp_all add: ex_defs run_defs)

lemma detachClient_unbound: "infoOf st s = None \<Longrightarrow> detachClient s r sl st = st"
  by (simp add: detachClient_def)

lemma detachRole_fields [simp]:
  "clientCounter (detachRole s i r st) = clientCounter st"
  "clients (detachRole s i r st) = clients st"
  "isAlive (socks (detachRole s i r st) t) = isAlive (socks st t)"
  by (simp_all add: detachRole_def Let_def split: info.splits option.splits)

lemma detachClient_fields [simp]:
  "clientCounter (detachClient s r sl st) = clientCounter st"
  "clients (detachClient s r sl st) = clients st"
  "isAlive (socks (detachClient s r sl st) t) = isAlive (socks st t)"
  "infoOf (detachClient s r sl st) s = None"
  by (simp_all add: detachClient_def Let_def split: option.splits)

text \<open>A participant whose entry is its own, with a host that is not open.\<close>

lemma detachRole_player_dead_host:
  assumes "sessions st c = Some sess" "ready st (dm sess) \<noteq> OPEN"
  shows "detachRole s (Player c pid) r st =
           (if map_of (players sess) pid = Some s
            then st\<lparr>sessions := (sessions st)(c \<mapsto> sess\<lparr>players := AList.delete pid (players sess)\<rparr>)\<rparr>
            else st)"
  using assms by (simp add: detachRole_def Let_def)

section \<open>C1: a participant relays to a session whose host is gone\<close>

text \<open>
  Claim C1, as amended. A connection bound as participant of a registered session whose
  host socket is not open sends a relay frame. Nothing is relayed: the only frame
  written is a \<open>session-closed\<close> notice, without message text, to the participant
  itself (when its socket is open). The participant is torn down: its binding is cleared,
  its own entry is taken out of the session's player map, its socket is closed, and no
  other socket changes. No \<open>session-error\<close> notice is written.
\<close>

theorem participant_relay_dead_host:
  assumes "infoOf st s = Some (Player c pid)"
    and "sessions st c = Some sess"
    and "ready st (dm sess) \<noteq> OPEN"
    and "typeof (Some m) = TObject" "truthy (Some m)"
    and "getField m ''type'' = Some (JStr ''relay'')"
  shows "outbox (onMessage s (Some m) now st) =
           outbox st @ (if ready st s = OPEN then [(s, SessionClosed None)] else [])
       \<and> infoOf (onMessage s (Some m) now st) s = None
       \<and> ready (onMessage s (Some m) now st) s = (if ready st s = OPEN then CLOSING else ready st s)
       \<and> sessions (onMessage s (Some m) now st) =
           (if map_of (players sess) pid = Some s
            then (sessions st)(c \<mapsto> sess\<lparr>players := AList.delete pid (players sess)\<rparr>)
            else sessions st)
       \<and> (\<forall>t. t \<noteq> s \<longrightarrow> socks (onMessage s (Some m) now st) t = socks st t)"
proof -
  let ?st0 = "safeSend s (SessionClosed None) st"
  let ?st1 = "detachRole s (Player c pid) (Some ''Session unavailable.'') ?st0"
  let ?st2 = "setClientInfo s None ?st1"
  have dr: "?st1 =
           (if map_of (players sess) pid = Some s
            then ?st0\<lparr>sessions := (sessions ?st0)(c \<mapsto> sess\<lparr>players := AList.delete pid (players sess)\<rparr>)\<rparr>
            else ?st0)"
    using assms by (intro detachRole_player_dead_host) simp_all
  have "onMessage s (Some m) now st = relayFromPlayer s m st"
    using assms by (simp add: onMessage_relay_player isDm_def)
  also have "\<dots> = detachClient s (Some ''Session unavailable.'') False ?st0"
    using assms by (simp add: relayFromPlayer_def)
  also have "\<dots> = (if ready ?st2 s = OPEN then socketClose s ?st2 else ?st2)"
    using assms by (simp add: detachClient_def Let_def)
  finally have e: "onMessage s (Some m) now st = (if ready ?st2 s = OPEN then socketClose s ?st2 else ?st2)" .
  have r1: "ready ?st1 s = ready st s" by (simp add: dr)
  have o1: "outbox ?st1 = outbox ?st0" by (simp add: dr)
  have s1: "sessions ?st1 = (if map_of (players sess) pid = Some s
            then (sessions st)(c \<mapsto> sess\<lparr>players := AList.delete pid (players sess)\<rparr>)
            else sessions st)" by (simp add: dr)
  have k1: "socks ?st1 = socks st" by (subst dr) (simp add: safeSend_def)
  have c1: "outbox (onMessage s (Some m) now st) =
           outbox st @ (if ready st s = OPEN then [(s, SessionClosed None)] else [])"
    unfolding e by (simp add: r1 o1)
  have c2: "infoOf (onMessage s (Some m) now st) s = None"
    unfolding e by simp
  have c3: "ready (onMessage s (Some m) now st) s = (if ready st s = OPEN then CLOSING else ready st s)"
    unfolding e by (simp add: r1)
  have c4: "sessions (onMessage s (Some m) now st) =
           (if map_of (players sess) pid = Some s
            then (sessions st)(c \<mapsto> sess\<lparr>players := AList.delete pid (players sess)\<rparr>)
            else sessions st)"
    unfolding e by (simp add: s1)
  have c5: "\<forall>t. t \<noteq> s \<longrightarrow> socks (onMessage s (Some m) now st) t = socks st t"
    unfolding e by (simp add: socketClose_def setReady_def setClientInfo_def k1)
  from c1 c2 c3 c4 c5 show ?thesis by blast
qed

text \<open>The theorem at the example state, where connection 1 relays after host 0 started closing.\<close>

theorem participant_relay_dead_host_witness:
  "infoOf exDeadHost 1 = Some (Player ''ABC123'' ''c-rs-1'')
   \<and> sessions exDeadHost ''ABC123'' = Some \<lparr>code = ''ABC123'', dm = 0, players = [(''c-rs-1'', 1)]\<rparr>
   \<and> ready exDeadHost 0 \<noteq> OPEN
   \<and> outbox (onMessage 1 (Some exRelay) 0 exDeadHost) = outbox exDeadHost @ [(1, SessionClosed None)]
   \<and> infoOf (onMessage 1 (Some exRelay) 0 exDeadHost) 1 = None
   \<and> ready (onMessage 1 (Some exRelay) 0 exDeadHost) 1 = CLOSING
   \<and> sessions (onMessage 1 (Some exRelay) 0 exDeadHost) =
        (sessions exDeadHost)(''ABC123'' \<mapsto> \<lparr>code = ''ABC123'', dm = 0, players = []\<rparr>)"
proof -
  have h1: "infoOf exDeadHost 1 = Some (Player ''ABC123'' ''c-rs-1'')"
    by (simp add: ex_defs run_defs)
  have h2: "sessions exDeadHost ''ABC123'' = Some \<lparr>code = ''ABC123'', dm = 0, players = [(''c-rs-1'', 1)]\<rparr>"
    by (simp add: ex_defs run_defs)
  have h3: "ready exDeadHost (dm \<lparr>code = ''ABC123'', dm = 0, players = [(''c-rs-1'', 1)]\<rparr>) \<noteq> OPEN"
    by (simp add: exDeadHost_def)
  have h4: "typeof (Some exRelay) = TObject" "truthy (Some exRelay)"
    "getField exRelay ''type'' = Some (JStr ''relay'')"
    by (simp_all add: exRelay_def)
  have r: "ready exDeadHost 1 = OPEN" by (simp add: ex_defs run_defs)
  from participant_relay_dead_host [OF h1 h2 h3 h4, of 0] h1 h2 h3 r
  show ?thesis by (simp add: AList.delete_eq)
qed

text \<open>
  Claim C1 as stated promises a \<open>session-error\<close> notice. At the example state the whole
  outbox after the relay holds the three frames of the create and the join, and then the
  \<open>session-closed\<close> notice: no \<open>session-error\<close> frame is written to the participant.
\<close>

theorem participant_relay_dead_host_counterexample:
  "infoOf exDeadHost 1 = Some (Player ''ABC123'' ''c-rs-1'')
   \<and> map_option dm (sessions exDeadHost ''ABC123'') = Some 0
   \<and> ready exDeadHost 0 = CLOSING
   \<and> outbox (onMessage 1 (Some exRelay) 0 exDeadHost) =
       [(0, SessionCreated ''ABC123''), (1, SessionJoined ''ABC123'' ''c-rs-1''),
        (0, PlayerJoined ''c-rs-1''), (1, SessionClosed None)]"
  by (simp add: ex_defs run_defs)

lemma onMessage_frame:
  assumes "isFrame t m"
  shows "onMessage s (Some m) now st =
     (if t = ''create-session'' then handleCreateSession s m st
      else if t = ''join-session'' then handleJoinSession s m now st
      else if t = ''relay'' then
        (if isDm (infoOf st s) then relayFromDm s m st else relayFromPlayer s m st)
      else if t = ''close-session'' then handleCloseSession s st
      else st)"
  using assms by (simp add: onMessage_def isFrame_def)

lemma isDm_simps [simp]:
  "isDm None = False" "isDm (Some (Dm c)) = True" "isDm (Some (Player c pid)) = False"
  by (simp_all add: isDm_def)

section \<open>C5: what a host's relay delivers\<close>

text \<open>
  Claim C5. A host sends a relay frame with a structured payload. If the frame names a
  player id (a non-empty string), the payload is written to the socket registered under
  that id in the host's session and to no other socket, and nothing is written when the
  id is not registered. If the frame has no \<open>playerId\<close>, the payload is written to every
  registered participant of the host's session, in the order of the map, and to no other
  socket. Writing is \<open>safeSend\<close>: a registered socket that is no longer open gets no
  frame. Nothing but the outbox changes.
\<close>

theorem host_relay_delivery:
  assumes "infoOf st s = Some (Dm c)" and "sessions st c = Some sess"
    and "isFrame ''relay'' m"
    and "getField m ''payload'' = Some payload" and "structured (Some payload)"
  shows "(\<forall>pid. getField m ''playerId'' = Some (JStr pid) \<and> pid \<noteq> [] \<longrightarrow>
            onMessage s (Some m) now st = st\<lparr>outbox := outbox st @
              (case map_of (players sess) pid of
                 None \<Rightarrow> []
               | Some target \<Rightarrow>
                   if ready st target = OPEN then [(target, RelayToPlayer payload)] else [])\<rparr>)
       \<and> (getField m ''playerId'' = None \<longrightarrow>
            onMessage s (Some m) now st = st\<lparr>outbox := outbox st @
              map (\<lambda>(k, p). (p, RelayToPlayer payload))
                (filter (\<lambda>(k, p). ready st p = OPEN) (players sess))\<rparr>)"
proof -
  have d: "onMessage s (Some m) now st = relayFromDm s m st"
    using assms by (simp add: onMessage_frame)
  have p: "truthy (Some payload)" "typeof (Some payload) = TObject"
    using assms by (simp_all add: structured_def)
  show ?thesis
    unfolding d
    using relayFromDm_targeted [OF assms(1,2,4) p] relayFromDm_broadcast [OF assms(1,2,4) p]
    by auto
qed

text \<open>
  The theorem with two participants: a relay targeted at the first, then an untargeted one.
\<close>

theorem host_relay_delivery_witness:
  "infoOf exTwoPlayers 0 = Some (Dm ''ABC123'')
   \<and> sessions exTwoPlayers ''ABC123'' =
        Some \<lparr>code = ''ABC123'', dm = 0, players = [(''c-rs-1'', 1), (''c-1jk-2'', 2)]\<rparr>
   \<and> onMessage 0 (Some exRelayTo) 0 exTwoPlayers =
        exTwoPlayers\<lparr>outbox := outbox exTwoPlayers @
           [(1, RelayToPlayer (JObj [(''initiative'', JNum 12)]))]\<rparr>
   \<and> onMessage 0 (Some exRelay) 0 exTwoPlayers =
        exTwoPlayers\<lparr>outbox := outbox exTwoPlayers @
           [(1, RelayToPlayer (JObj [(''initiative'', JNum 12)])),
            (2, RelayToPlayer (JObj [(''initiative'', JNum 12)]))]\<rparr>"
proof -
  let ?sess = "\<lparr>code = ''ABC123'', dm = 0, players = [(''c-rs-1'', 1), (''c-1jk-2'', 2)]\<rparr>"
  have h1: "infoOf exTwoPlayers 0 = Some (Dm ''ABC123'')"
    by (simp add: ex_defs run_defs)
  have h2: "sessions exTwoPlayers ''ABC123'' = Some ?sess"
    by (simp add: ex_defs run_defs)
  have f1: "isFrame ''relay'' exRelayTo" and f2: "isFrame ''relay'' exRelay"
    by (simp_all add: isFrame_def exRelayTo_def exRelay_def)
  have p1: "getField exRelayTo ''payload'' = Some (JObj [(''initiative'', JNum 12)])"
    and p2: "getField exRelay ''payload'' = Some (JObj [(''initiative'', JNum 12)])"
    by (simp_all add: exRelayTo_def exRelay_def)
  have st: "structured (Some (JObj [(''initiative'', JNum 12)]))"
    by (simp add: structured_def)
  have i1: "getField exRelayTo ''playerId'' = Some (JStr ''c-rs-1'')"
    and i2: "getField exRelay ''playerId'' = None"
    by (simp_all add: exRelayTo_def exRelay_def)
  have r: "ready exTwoPlayers 1 = OPEN" "ready exTwoPlayers 2 = OPEN"
    by (simp_all add: ex_defs run_defs)
  from host_relay_delivery [OF h1 h2 f1 p1 st, of 0] i1 r
  have a: "onMessage 0 (Some exRelayTo) 0 exTwoPlayers =
        exTwoPlayers\<lparr>outbox := outbox exTwoPlayers @
           [(1, RelayToPlayer (JObj [(''initiative'', JNum 12)]))]\<rparr>"
    by simp
  from host_relay_delivery [OF h1 h2 f2 p2 st, of 0] i2 r
  have b: "onMessage 0 (Some exRelay) 0 exTwoPlayers =
        exTwoPlayers\<lparr>outbox := outbox exTwoPlayers @
           [(1, RelayToPlayer (JObj [(''initiative'', JNum 12)])),
            (2, RelayToPlayer (JObj [(''initiative'', JNum 12)]))]\<rparr>"
    by simp
  from h1 h2 a b show ?thesis by blast
qed

section \<open>C10: a \<open>playerId\<close> that is not a non-empty string\<close>

text \<open>
  Claim C10. A host's relay frame whose \<open>playerId\<close> is present but is not a non-empty
  string (a number, the empty string, any other value) is treated as untargeted: the
  payload is written to every registered participant of the session.
\<close>

theorem host_relay_invalid_player_id:
  assumes "infoOf st s = Some (Dm c)" and "sessions st c = Some sess"
    and "isFrame ''relay'' m"
    and "getField m ''payload'' = Some payload" and "structured (Some payload)"
    and "getField m ''playerId'' = Some v"
    and "\<forall>pid. v = JStr pid \<longrightarrow> pid = []"
  shows "onMessage s (Some m) now st = st\<lparr>outbox := outbox st @
              map (\<lambda>(k, p). (p, RelayToPlayer payload))
                (filter (\<lambda>(k, p). ready st p = OPEN) (players sess))\<rparr>"
proof -
  have d: "onMessage s (Some m) now st = relayFromDm s m st"
    using assms by (simp add: onMessage_frame)
  have p: "truthy (Some payload)" "typeof (Some payload) = TObject"
    using assms by (simp_all add: structured_def)
  have "\<forall>pid. getField m ''playerId'' = Some (JStr pid) \<longrightarrow> pid = []"
    using assms(6,7) by simp
  from relayFromDm_broadcast [OF assms(1,2,4) p this] show ?thesis
    unfolding d .
qed

text \<open>The theorem for a frame whose \<open>playerId\<close> is the number 7.\<close>

theorem host_relay_invalid_player_id_witness:
  "infoOf exTwoPlayers 0 = Some (Dm ''ABC123'')
   \<and> getField exRelayBadId ''playerId'' = Some (JNum 7)
   \<and> onMessage 0 (Some exRelayBadId) 0 exTwoPlayers =
        exTwoPlayers\<lparr>outbox := outbox exTwoPlayers @
           [(1, RelayToPlayer (JObj [(''initiative'', JNum 9)])),
            (2, RelayToPlayer (JObj [(''initiative'', JNum 9)]))]\<rparr>"
proof -
  let ?sess = "\<lparr>code = ''ABC123'', dm = 0, players = [(''c-rs-1'', 1), (''c-1jk-2'', 2)]\<rparr>"
  have h1: "infoOf exTwoPlayers 0 = Some (Dm ''ABC123'')"
    by (simp add: ex_defs run_defs)
  have h2: "sessions exTwoPlayers ''ABC123'' = Some ?sess"
    by (simp add: ex_defs run_defs)
  have f: "isFrame ''relay'' exRelayBadId"
    by (simp add: isFrame_def exRelayBadId_def)
  have p: "getField exRelayBadId ''payload'' = Some (JObj [(''initiative'', JNum 9)])"
    by (simp add: exRelayBadId_def)
  have st: "structured (Some (JObj [(''initiative'', JNum 9)]))"
    by (simp add: structured_def)
  have i: "getField exRelayBadId ''playerId'' = Some (JNum 7)"
    by (simp add: exRelayBadId_def)
  have n: "\<forall>pid. JNum 7 = JStr pid \<longrightarrow> pid = []" by simp
  have r: "ready exTwoPlayers 1 = OPEN" "ready exTwoPlayers 2 = OPEN"
    by (simp_all add: ex_defs run_defs)
  from host_relay_invalid_player_id [OF h1 h2 f p st i n, of 0] r h1 i
  show ?thesis by simp
qed

section \<open>C9: relay frames without a structured payload\<close>

lemma relayFromDm_unstructured:
  assumes "\<not> structured (getField m ''payload'')"
  shows "relayFromDm s m st = st"
proof (cases "getField m ''payload''")
  case None
  then show ?thesis
    by (simp add: relayFromDm_def split: option.splits info.splits)
next
  case (Some payload)
  with assms have "\<not> truthy (Some payload) \<or> typeof (Some payload) \<noteq> TObject"
    by (simp add: structured_def)
  with Some show ?thesis
    by (simp add: relayFromDm_def split: option.splits info.splits)
qed

lemma relayFromPlayer_unbound:
  assumes "\<forall>c pid. infoOf st s \<noteq> Some (Player c pid)"
  shows "relayFromPlayer s m st = st"
  using assms by (simp add: relayFromPlayer_def split: option.splits info.splits)

lemma relayFromPlayer_live_host:
  assumes "infoOf st s = Some (Player c pid)" "sessions st c = Some sess" "ready st (dm sess) = OPEN"
  shows "relayFromPlayer s m st =
     (case getField m ''payload'' of
        None \<Rightarrow> st
      | Some payload \<Rightarrow>
          if typeof (Some payload) \<noteq> TObject then st
          else st\<lparr>outbox := outbox st @ [(dm sess, RelayToDm pid payload)]\<rparr>)"
  using assms by (simp add: relayFromPlayer_def safeSend_def split: option.splits)

text \<open>
  Claim C9, as amended. A relay frame whose payload is missing or not a structured object
  is dropped with no frame written and no change of state when it comes from a host, from
  an unbound connection, or, the payload being missing or a boolean, a number or a
  string, from a participant whose session is registered with an open host.
\<close>

theorem unstructured_relay_dropped:
  assumes "isFrame ''relay'' m"
    and "\<not> structured (getField m ''payload'')"
  shows "(isDm (infoOf st s) \<or> infoOf st s = None \<longrightarrow> onMessage s (Some m) now st = st)
       \<and> (\<forall>c pid sess. infoOf st s = Some (Player c pid) \<and> sessions st c = Some sess
             \<and> ready st (dm sess) = OPEN \<and> typeof (getField m ''payload'') \<noteq> TObject \<longrightarrow>
             onMessage s (Some m) now st = st)"
proof -
  have a: "isDm (infoOf st s) \<Longrightarrow> onMessage s (Some m) now st = st"
    using assms by (simp add: onMessage_frame relayFromDm_unstructured)
  have b: "infoOf st s = None \<Longrightarrow> onMessage s (Some m) now st = st"
    using assms(1) by (simp add: onMessage_frame relayFromPlayer_unbound)
  have c: "onMessage s (Some m) now st = st"
    if "infoOf st s = Some (Player c pid)" "sessions st c = Some sess"
      "ready st (dm sess) = OPEN" "typeof (getField m ''payload'') \<noteq> TObject"
    for c pid sess
  proof (cases "getField m ''payload''")
    case None
    with assms(1) that show ?thesis
      by (simp add: onMessage_frame relayFromPlayer_live_host)
  next
    case (Some payload)
    with assms(1) that show ?thesis
      by (simp add: onMessage_frame relayFromPlayer_live_host)
  qed
  from a b c show ?thesis by blast
qed

text \<open>
  The theorem for a relay frame with no payload: from the host, from the unbound
  connection 2, and from participant 1 while the host is open.
\<close>

theorem unstructured_relay_dropped_witness:
  "isFrame ''relay'' exPing \<and> \<not> structured (getField exPing ''payload'')
   \<and> onMessage 0 (Some exPing) 0 exJoined = exJoined
   \<and> onMessage 2 (Some exPing) 0 exJoined = exJoined
   \<and> onMessage 1 (Some exPing) 0 exJoined = exJoined"
proof -
  have f: "isFrame ''relay'' exPing" by (simp add: isFrame_def exPing_def)
  have n: "\<not> structured (getField exPing ''payload'')"
    by (simp add: structured_def exPing_def)
  have t: "typeof (getField exPing ''payload'') \<noteq> TObject" by (simp add: exPing_def)
  have i: "infoOf exJoined 0 = Some (Dm ''ABC123'')"
    "infoOf exJoined 1 = Some (Player ''ABC123'' ''c-rs-1'')" "infoOf exJoined 2 = None"
    "sessions exJoined ''ABC123'' = Some \<lparr>code = ''ABC123'', dm = 0, players = [(''c-rs-1'', 1)]\<rparr>"
    "ready exJoined 0 = OPEN"
    by (fact exJoined_fields)+
  from unstructured_relay_dropped [OF f n, of exJoined 0 0] i
  have a: "onMessage 0 (Some exPing) 0 exJoined = exJoined" by simp
  from unstructured_relay_dropped [OF f n, of exJoined 2 0] i
  have b: "onMessage 2 (Some exPing) 0 exJoined = exJoined" by simp
  from unstructured_relay_dropped [OF f n, of exJoined 1 0] i t
  have c: "onMessage 1 (Some exPing) 0 exJoined = exJoined" by auto
  from f n a b c show ?thesis by blast
qed

text \<open>
  Claim C9 as stated fails for a participant whose host is gone: the liveness test of
  \<open>relayFromPlayer\<close> comes before its payload test, so the frame without payload still
  has the participant notified and torn down.
\<close>

theorem unstructured_relay_dropped_counterexample:
  "isFrame ''relay'' exPing \<and> getField exPing ''payload'' = None
   \<and> infoOf exDeadHost 1 = Some (Player ''ABC123'' ''c-rs-1'')
   \<and> outbox (onMessage 1 (Some exPing) 0 exDeadHost) = outbox exDeadHost @ [(1, SessionClosed None)]
   \<and> infoOf (onMessage 1 (Some exPing) 0 exDeadHost) 1 = None
   \<and> map_option players (sessions exDeadHost ''ABC123'') = Some [(''c-rs-1'', 1)]
   \<and> map_option players (sessions (onMessage 1 (Some exPing) 0 exDeadHost) ''ABC123'') = Some []"
  by (simp add: isFrame_def ex_defs run_defs)

text \<open>
  \<open>typeof null\<close> is \<open>'object'\<close>: \<open>relayFromPlayer\<close>, which has no truthiness test on the
  payload, forwards a \<open>null\<close> payload to the host, where \<open>relayFromDm\<close> would drop it.
\<close>

lemma participant_relay_null_payload:
  assumes "infoOf st s = Some (Player c pid)" "sessions st c = Some sess" "ready st (dm sess) = OPEN"
    and "isFrame ''relay'' m" "getField m ''payload'' = Some JNull"
  shows "onMessage s (Some m) now st = st\<lparr>outbox := outbox st @ [(dm sess, RelayToDm pid JNull)]\<rparr>"
  using assms by (simp add: onMessage_frame relayFromPlayer_live_host)

section \<open>C2 and C4: create-session\<close>

lemma handleCreateSession_refused:
  assumes "normalizeCode (getField m ''code'') = c"
    and "c = [] \<or> isDm (infoOf st s) \<or> sessions st c \<noteq> None"
  shows "handleCreateSession s m st =
     safeSend s (SessionError
        (if c = [] then msgInvalidCreate
         else if isDm (infoOf st s) then msgAlreadyHosting
         else msgSessionExists)) st"
  using assms by (auto simp: handleCreateSession_def)

lemma handleCreateSession_accepted:
  assumes "normalizeCode (getField m ''code'') = c"
    and "c \<noteq> []" "\<not> isDm (infoOf st s)" "sessions st c = None"
  shows "handleCreateSession s m st =
     safeSend s (SessionCreated c)
       (setClientInfo s (Some (Dm c))
          (st\<lparr>sessions := (sessions st)(c \<mapsto> \<lparr>code = c, dm = s, players = []\<rparr>)\<rparr>))"
  using assms by (simp add: handleCreateSession_def Let_def)







section \<open>Player ids are told apart by their counter\<close>

lemma digits36_distinct: "distinct ''0123456789abcdefghijklmnopqrstuvwxyz''"
  by simp

lemma digit36_inj:
  assumes "a < 36" "b < 36" "digit36 a = digit36 b"
  shows "a = b"
  using assms digits36_distinct
  by (simp add: digit36_def nth_eq_iff_index_eq del: distinct.simps)

lemma digit36_no_dash: "d < 36 \<Longrightarrow> digit36 d \<noteq> CHR ''-''"
proof -
  assume "d < 36"
  then have "digit36 d \<in> set ''0123456789abcdefghijklmnopqrstuvwxyz''"
    unfolding digit36_def by (intro nth_mem) simp
  then show ?thesis by auto
qed

lemma toString36_nonempty: "toString36 n \<noteq> []"
  by (subst toString36.simps) simp

lemma toString36_last: "last (toString36 n) = digit36 (n mod 36)"
  by (subst toString36.simps) simp

lemma toString36_butlast:
  "butlast (toString36 n) = (if n < 36 then [] else toString36 (n div 36))"
  by (subst toString36.simps) simp

lemma toString36_inj: "toString36 a = toString36 b \<Longrightarrow> a = b"
proof (induction a arbitrary: b rule: less_induct)
  case (less a)
  from less.prems have l: "digit36 (a mod 36) = digit36 (b mod 36)"
    by (metis toString36_last)
  then have m: "a mod 36 = b mod 36"
    by (intro digit36_inj) simp_all
  from less.prems have bl: "butlast (toString36 a) = butlast (toString36 b)" by simp
  show ?case
  proof (cases "a < 36")
    case True
    with bl have "b < 36"
      using toString36_nonempty [of "b div 36"]
      by (auto simp: toString36_butlast split: if_splits)
    with True m show ?thesis by simp
  next
    case False
    with bl have b: "\<not> b < 36"
      using toString36_nonempty [of "a div 36"]
      by (auto simp: toString36_butlast split: if_splits)
    with False bl have "toString36 (a div 36) = toString36 (b div 36)"
      by (simp add: toString36_butlast)
    moreover from False have "a div 36 < a" by simp
    ultimately have "a div 36 = b div 36" by (rule less.IH [rotated])
    with m show ?thesis by (metis div_mult_mod_eq)
  qed
qed

lemma toString36_no_dash: "CHR ''-'' \<notin> set (toString36 n)"
proof (induction n rule: less_induct)
  case (less n)
  show ?case
  proof (cases "n < 36")
    case True
    then show ?thesis
      using digit36_no_dash [of n] by (subst toString36.simps) auto
  next
    case False
    then have "n div 36 < n" by simp
    from less.IH [OF this] digit36_no_dash [of "n mod 36"] False show ?thesis
      by (subst toString36.simps) auto
  qed
qed

lemma formatClientId_inj:
  assumes "formatClientId t n = formatClientId t' n'"
  shows "t = t' \<and> n = n'"
proof -
  from assms have "toString36 t @ CHR ''-'' # toString36 n = toString36 t' @ CHR ''-'' # toString36 n'"
    by (simp add: formatClientId_def)
  then have "toString36 t = toString36 t' \<and> toString36 n = toString36 n'"
    using toString36_no_dash by (simp add: append_Cons_eq_iff)
  then show ?thesis by (auto dest: toString36_inj)
qed

lemma issued_fresh:
  assumes "issued st pid" "clientCounter st < n"
  shows "pid \<noteq> formatClientId now n"
  using assms by (auto simp: issued_def dest!: formatClientId_inj)

lemma jsIncrement_ge: "c \<le> jsIncrement c"
  by (simp add: jsIncrement_def)

lemma issued_mono:
  assumes "issued st pid" "clientCounter st \<le> clientCounter st'"
  shows "issued st' pid"
proof -
  from assms(1) obtain now n where "n \<le> clientCounter st" "pid = formatClientId now n"
    unfolding issued_def by blast
  with assms(2) have "n \<le> clientCounter st' \<and> pid = formatClientId now n" by simp
  then show ?thesis unfolding issued_def by blast
qed

section \<open>What \<open>detachClient\<close> does to the table and to the bindings\<close>

lemma detachRole_sessions:
  "sessions (detachRole s i r st) =
     (case i of
        Dm c \<Rightarrow>
          (case sessions st c of
             None \<Rightarrow> sessions st
           | Some sess \<Rightarrow> if dm sess = s then (sessions st)(code sess := None) else sessions st)
      | Player c pid \<Rightarrow>
          (case sessions st c of
             None \<Rightarrow> sessions st
           | Some sess \<Rightarrow>
               if map_of (players sess) pid = Some s
               then (sessions st)(c \<mapsto> sess\<lparr>players := AList.delete pid (players sess)\<rparr>)
               else sessions st))"
  by (simp add: detachRole_def Let_def split: info.splits option.splits)

lemma detachRole_infoOf:
  "infoOf (detachRole s i r st) t =
     (case i of
        Dm c \<Rightarrow>
          (case sessions st c of
             None \<Rightarrow> infoOf st t
           | Some sess \<Rightarrow>
               if dm sess = s \<and> t \<in> snd ` set (players sess) then None else infoOf st t)
      | Player c pid \<Rightarrow> infoOf st t)"
  by (simp add: detachRole_def Let_def split: info.splits option.splits)

lemma detachRole_ready:
  "ready (detachRole s i r st) t =
     (case i of
        Dm c \<Rightarrow>
          (case sessions st c of
             None \<Rightarrow> ready st t
           | Some sess \<Rightarrow>
               if dm sess = s \<and> t \<in> snd ` set (players sess) \<and> ready st t \<noteq> CLOSED then CLOSING
               else ready st t)
      | Player c pid \<Rightarrow> ready st t)"
  by (simp add: detachRole_def Let_def split: info.splits option.splits)

lemma detachClient_sessions:
  "sessions (detachClient s r sl st) =
     (case infoOf st s of None \<Rightarrow> sessions st | Some i \<Rightarrow> sessions (detachRole s i r st))"
  by (simp add: detachClient_def Let_def split: option.splits)

lemma detachClient_infoOf:
  "infoOf (detachClient s r sl st) t =
     (if t = s then None
      else case infoOf st s of None \<Rightarrow> infoOf st t | Some i \<Rightarrow> infoOf (detachRole s i r st) t)"
  by (simp add: detachClient_def Let_def split: option.splits)

lemma detachClient_info_kept:
  assumes "infoOf (detachClient s r sl st) t = Some i"
  shows "infoOf st t = Some i \<and> t \<noteq> s"
  using assms
  by (auto simp: detachClient_infoOf detachRole_infoOf split: if_splits option.splits info.splits)

lemma detachClient_session_kept:
  assumes "sessions (detachClient s r sl st) c = Some sess'"
  shows "\<exists>sess. sessions st c = Some sess \<and> code sess' = code sess \<and> dm sess' = dm sess
           \<and> set (players sess') \<subseteq> set (players sess)"
  using assms
  by (auto simp: detachClient_sessions detachRole_sessions AList.delete_eq
      split: if_splits option.splits info.splits)

lemma detachClient_tableInv:
  assumes "tableInv st"
  shows "tableInv (detachClient s r sl st)"
proof -
  let ?st' = "detachClient s r sl st"
  have t1: "code sess = c \<and> c \<noteq> []" if "sessions ?st' c = Some sess" for c sess
    using detachClient_session_kept [OF that] assms by (auto simp: tableInv_def)
  have t2: "\<exists>sess. sessions ?st' c = Some sess \<and> dm sess = t"
    if h: "infoOf ?st' t = Some (Dm c)" for t c
  proof -
    from detachClient_info_kept [OF h] have i: "infoOf st t = Some (Dm c)" and ne: "t \<noteq> s"
      by simp_all
    from assms have "\<forall>s c. infoOf st s = Some (Dm c) \<longrightarrow>
        (\<exists>sess. sessions st c = Some sess \<and> dm sess = s)"
      by (simp add: tableInv_def)
    with i obtain sess where sess: "sessions st c = Some sess" "dm sess = t"
      by blast
    from assms have codes: "\<And>c sess. sessions st c = Some sess \<Longrightarrow> code sess = c"
      by (simp add: tableInv_def)
    show ?thesis
    proof (cases "infoOf st s")
      case None
      with sess show ?thesis by (simp add: detachClient_sessions)
    next
      case (Some j)
      show ?thesis
      proof (cases j)
        case (Dm c0)
        show ?thesis
        proof (cases "sessions st c0")
          case None
          with Some Dm sess show ?thesis
            by (simp add: detachClient_sessions detachRole_sessions)
        next
          case (Some sess0)
          show ?thesis
          proof (cases "dm sess0 = s")
            case True
            have "code sess0 = c0" using codes Some by simp
            moreover have "c0 \<noteq> c" using True Some sess ne by auto
            ultimately show ?thesis
              using \<open>infoOf st s = Some j\<close> Dm Some True sess
              by (simp add: detachClient_sessions detachRole_sessions)
          next
            case False
            with \<open>infoOf st s = Some j\<close> Dm Some sess show ?thesis
              by (simp add: detachClient_sessions detachRole_sessions)
          qed
        qed
      next
        case (Player c0 pid)
        with Some sess show ?thesis
          by (auto simp: detachClient_sessions detachRole_sessions split: option.splits)
      qed
    qed
  qed
  from t1 t2 show ?thesis unfolding tableInv_def by blast
qed

lemma detachClient_idsInv:
  assumes "idsInv st"
  shows "idsInv (detachClient s r sl st)"
proof -
  let ?st' = "detachClient s r sl st"
  have m: "issued st pid \<Longrightarrow> issued ?st' pid" for pid
    by (erule issued_mono) simp
  have a: "issued ?st' pid" if "sessions ?st' c = Some sess'" "(pid, p) \<in> set (players sess')"
    for c sess' pid p
  proof -
    from detachClient_session_kept [OF that(1)] that(2) obtain sess where
      "sessions st c = Some sess" "(pid, p) \<in> set (players sess)" by blast
    with assms have "issued st pid" unfolding idsInv_def by blast
    then show ?thesis by (rule m)
  qed
  have b: "issued ?st' pid" if "infoOf ?st' t = Some (Player c pid)" for t c pid
  proof -
    from detachClient_info_kept [OF that] assms have "issued st pid"
      unfolding idsInv_def by blast
    then show ?thesis by (rule m)
  qed
  from a b show ?thesis unfolding idsInv_def by blast
qed

section \<open>The invariants hold in every reachable state\<close>

lemma tableInv_cong:
  assumes "sessions st' = sessions st" "\<And>t. infoOf st' t = infoOf st t"
  shows "tableInv st' = tableInv st"
  using assms by (simp add: tableInv_def)

lemma idsInv_cong:
  assumes "sessions st' = sessions st" "\<And>t. infoOf st' t = infoOf st t"
    "clientCounter st' = clientCounter st"
  shows "idsInv st' = idsInv st"
  using assms by (simp add: idsInv_def issued_def)

lemma safeSend_inv [simp]:
  "tableInv (safeSend s m st) = tableInv st" "idsInv (safeSend s m st) = idsInv st"
  by (rule tableInv_cong idsInv_cong; simp)+

lemma setReady_inv [simp]:
  "tableInv (setReady s r st) = tableInv st" "idsInv (setReady s r st) = idsInv st"
  by (rule tableInv_cong idsInv_cong; simp)+

lemma setAlive_inv [simp]:
  "tableInv (setAlive s b st) = tableInv st" "idsInv (setAlive s b st) = idsInv st"
  by (rule tableInv_cong idsInv_cong; simp)+

lemma socketTerminate_inv [simp]:
  "tableInv (socketTerminate s st) = tableInv st" "idsInv (socketTerminate s st) = idsInv st"
  by (rule tableInv_cong idsInv_cong; simp)+

lemma socketPing_inv [simp]:
  "tableInv (socketPing s st) = tableInv st" "idsInv (socketPing s st) = idsInv st"
  by (rule tableInv_cong idsInv_cong; simp)+

lemma upd_clients_inv [simp]:
  "tableInv (st\<lparr>clients := x\<rparr>) = tableInv st" "idsInv (st\<lparr>clients := x\<rparr>) = idsInv st"
  by (rule tableInv_cong idsInv_cong; simp)+

lemma upd_outbox_inv [simp]:
  "tableInv (st\<lparr>outbox := x\<rparr>) = tableInv st" "idsInv (st\<lparr>outbox := x\<rparr>) = idsInv st"
  by (rule tableInv_cong idsInv_cong; simp)+

lemma initState_inv: "tableInv initState" "idsInv initState"
  by (simp_all add: tableInv_def idsInv_def initState_def infoOf_def initSocket_def)

lemma onConnection_fields [simp]:
  "sessions (onConnection st) = sessions st"
  "clientCounter (onConnection st) = clientCounter st"
  "infoOf (onConnection st) t = (if t = nextSock st then None else infoOf st t)"
  by (simp_all add: onConnection_def Let_def infoOf_def)

lemma onConnection_inv:
  assumes "tableInv st" "idsInv st"
  shows "tableInv (onConnection st)" "idsInv (onConnection st)"
  using assms by (auto simp: tableInv_def idsInv_def issued_def split: if_splits)

lemma handleCreateSession_inv:
  assumes "tableInv st" "idsInv st"
  shows "tableInv (handleCreateSession s m st)" "idsInv (handleCreateSession s m st)"
proof -
  let ?c = "normalizeCode (getField m ''code'')"
  show "tableInv (handleCreateSession s m st)"
  proof (cases "?c = [] \<or> isDm (infoOf st s) \<or> sessions st ?c \<noteq> None")
    case True
    then show ?thesis
      using assms(1) by (simp add: handleCreateSession_refused [OF refl])
  next
    case False
    then have e: "handleCreateSession s m st = safeSend s (SessionCreated ?c)
       (setClientInfo s (Some (Dm ?c))
          (st\<lparr>sessions := (sessions st)(?c \<mapsto> \<lparr>code = ?c, dm = s, players = []\<rparr>)\<rparr>))"
      by (intro handleCreateSession_accepted) auto
    from assms(1) False show ?thesis
      unfolding e by (simp add: tableInv_def) (metis option.distinct(1))
  qed
  show "idsInv (handleCreateSession s m st)"
  proof (cases "?c = [] \<or> isDm (infoOf st s) \<or> sessions st ?c \<noteq> None")
    case True
    then show ?thesis
      using assms(2) by (simp add: handleCreateSession_refused [OF refl])
  next
    case False
    then have e: "handleCreateSession s m st = safeSend s (SessionCreated ?c)
       (setClientInfo s (Some (Dm ?c))
          (st\<lparr>sessions := (sessions st)(?c \<mapsto> \<lparr>code = ?c, dm = s, players = []\<rparr>)\<rparr>))"
      by (intro handleCreateSession_accepted) auto
    from assms(2) show ?thesis
      unfolding e by (auto simp: idsInv_def issued_def split: if_splits)
  qed
qed

lemma handleCloseSession_detach:
  "handleCloseSession s st =
     (if \<exists>c sess. infoOf st s = Some (Dm c) \<and> sessions st c = Some sess \<and> dm sess = s
      then detachClient s (Some ''The DM closed the session.'') True st
      else st)"
  by (auto simp: handleCloseSession_def detachClient_def detachRole_def reasonOr_def Let_def
      split: option.splits info.splits)

lemma handleCloseSession_inv:
  assumes "tableInv st" "idsInv st"
  shows "tableInv (handleCloseSession s st)" "idsInv (handleCloseSession s st)"
  using assms by (simp_all add: handleCloseSession_detach detachClient_tableInv detachClient_idsInv)

lemma fold_safeSend_inv [simp]:
  "tableInv (fold (\<lambda>(k, p). safeSend p (f k p)) ps st) = tableInv st"
  "idsInv (fold (\<lambda>(k, p). safeSend p (f k p)) ps st) = idsInv st"
  by (simp_all add: fold_safeSend)

lemma relayFromDm_inv:
  assumes "tableInv st" "idsInv st"
  shows "tableInv (relayFromDm s m st)" "idsInv (relayFromDm s m st)"
  using assms
  by (simp_all add: relayFromDm_def split: option.splits info.splits json.splits)

lemma relayFromPlayer_inv:
  assumes "tableInv st" "idsInv st"
  shows "tableInv (relayFromPlayer s m st)" "idsInv (relayFromPlayer s m st)"
  using assms
  by (simp_all add: relayFromPlayer_def detachClient_tableInv detachClient_idsInv
      split: option.splits info.splits)

lemma set_update_subset: "set (AList.update k v xs) \<subseteq> insert (k, v) (set xs)"
  by (induction xs) auto

lemma handleJoinSession_accepted:
  assumes "normalizeCode (getField m ''code'') = c" "c \<noteq> []"
    "sessions st c = Some sess" "ready st (dm sess) = OPEN"
  shows "handleJoinSession s m now st =
     safeSend (dm sess) (PlayerJoined (formatClientId now (jsIncrement (clientCounter st))))
       (safeSend s (SessionJoined c (formatClientId now (jsIncrement (clientCounter st))))
          (setClientInfo s (Some (Player c (formatClientId now (jsIncrement (clientCounter st)))))
             (playersSet c (formatClientId now (jsIncrement (clientCounter st))) s
                ((detachClient s None True st)\<lparr>clientCounter := jsIncrement (clientCounter st)\<rparr>))))"
proof -
  have d: "(if infoOf st s \<noteq> None then detachClient s None True st else st) = detachClient s None True st"
    by (simp add: detachClient_unbound)
  show ?thesis
    using assms unfolding handleJoinSession_def d
    by (simp add: createClientId_def Let_def)
qed

lemma handleJoinSession_refused:
  assumes "normalizeCode (getField m ''code'') = c"
    "c = [] \<or> sessions st c = None \<or> (\<exists>sess. sessions st c = Some sess \<and> ready st (dm sess) \<noteq> OPEN)"
  shows "handleJoinSession s m now st =
     safeSend s (SessionError (if c = [] then msgInvalidJoin else msgSessionNotFound)) st"
  using assms by (auto simp: handleJoinSession_def)

lemma upd_counter_fields [simp]:
  "tableInv (st\<lparr>clientCounter := n\<rparr>) = tableInv st"
  by (rule tableInv_cong; simp)

lemma upd_counter_idsInv:
  assumes "idsInv st" "clientCounter st \<le> n"
  shows "idsInv (st\<lparr>clientCounter := n\<rparr>)"
proof -
  have "issued (st\<lparr>clientCounter := n\<rparr>) pid" if "issued st pid" for pid
    using that assms(2) by (elim issued_mono) simp
  with assms(1) show ?thesis by (simp add: idsInv_def)
qed

lemma playersSet_fields [simp]:
  "infoOf (playersSet c pid s st) t = infoOf st t"
  "clientCounter (playersSet c pid s st) = clientCounter st"
  "ready (playersSet c pid s st) t = ready st t"
  "outbox (playersSet c pid s st) = outbox st"
  by (simp_all add: playersSet_def split: option.splits)

lemma playersSet_sessions:
  "sessions (playersSet c pid s st) =
     (case sessions st c of
        None \<Rightarrow> sessions st
      | Some cur \<Rightarrow> (sessions st)(c \<mapsto> cur\<lparr>players := AList.update pid s (players cur)\<rparr>))"
  by (simp add: playersSet_def split: option.splits)

lemma playersSet_tableInv:
  assumes "tableInv st"
  shows "tableInv (playersSet c pid s st)"
proof -
  from assms have a: "\<And>c sess. sessions st c = Some sess \<Longrightarrow> code sess = c \<and> c \<noteq> []"
    and b: "\<And>s c. infoOf st s = Some (Dm c) \<Longrightarrow> \<exists>sess. sessions st c = Some sess \<and> dm sess = s"
    unfolding tableInv_def by blast+
  have "code sess' = c' \<and> c' \<noteq> []" if "sessions (playersSet c pid s st) c' = Some sess'"
    for c' sess'
    using that a by (auto simp: playersSet_sessions split: option.splits if_splits)
  moreover have "\<exists>sess'. sessions (playersSet c pid s st) c' = Some sess' \<and> dm sess' = t"
    if "infoOf (playersSet c pid s st) t = Some (Dm c')" for t c'
  proof -
    from that b obtain sess where "sessions st c' = Some sess" "dm sess = t" by auto
    then show ?thesis by (auto simp: playersSet_sessions split: option.splits)
  qed
  ultimately show ?thesis unfolding tableInv_def by blast
qed

lemma playersSet_idsInv:
  assumes "idsInv st" "issued st pid"
  shows "idsInv (playersSet c pid s st)"
proof -
  have i: "issued (playersSet c pid s st) q = issued st q" for q
    by (simp add: issued_def)
  have "issued st q"
    if "sessions (playersSet c pid s st) c' = Some sess'" "(q, p) \<in> set (players sess')"
    for c' sess' q p
  proof (cases "c' = c \<and> sessions st c \<noteq> None")
    case True
    then obtain cur where cur: "sessions st c = Some cur" by blast
    with True that(1) have "sess' = cur\<lparr>players := AList.update pid s (players cur)\<rparr>"
      by (simp add: playersSet_sessions)
    with that(2) have "(q, p) \<in> insert (pid, s) (set (players cur))"
      using set_update_subset [of pid s "players cur"] by auto
    with assms cur show ?thesis unfolding idsInv_def by blast
  next
    case False
    with that(1) have "sessions st c' = Some sess'"
      by (auto simp: playersSet_sessions split: option.splits if_splits)
    with assms(1) that(2) show ?thesis unfolding idsInv_def by blast
  qed
  moreover have "issued st q" if "infoOf (playersSet c pid s st) t = Some (Player c' q)" for t c' q
    using that assms(1) unfolding idsInv_def by simp
  ultimately show ?thesis
    unfolding idsInv_def i by blast
qed

lemma setClientInfo_player_inv:
  assumes "tableInv st" "idsInv st" "issued st pid"
  shows "tableInv (setClientInfo s (Some (Player c pid)) st)"
    "idsInv (setClientInfo s (Some (Player c pid)) st)"
  using assms by (auto simp: tableInv_def idsInv_def issued_def split: if_splits)

lemma handleJoinSession_inv:
  assumes "tableInv st" "idsInv st"
  shows "tableInv (handleJoinSession s m now st) \<and> idsInv (handleJoinSession s m now st)"
proof -
  let ?c = "normalizeCode (getField m ''code'')"
  show ?thesis
  proof (cases "?c = [] \<or> sessions st ?c = None
      \<or> (\<exists>sess. sessions st ?c = Some sess \<and> ready st (dm sess) \<noteq> OPEN)")
    case True
    then show ?thesis
      using assms by (simp add: handleJoinSession_refused [OF refl])
  next
    case False
    then obtain sess where h: "?c \<noteq> []" "sessions st ?c = Some sess" "ready st (dm sess) = OPEN"
      by auto
    let ?n = "jsIncrement (clientCounter st)"
    let ?pid = "formatClientId now ?n"
    let ?st1 = "detachClient s None True st"
    let ?st2 = "?st1\<lparr>clientCounter := ?n\<rparr>"
    let ?st3 = "playersSet ?c ?pid s ?st2"
    have t2: "tableInv ?st2" using assms(1) by (simp add: detachClient_tableInv)
    have i2: "idsInv ?st2"
      using assms(2) by (intro upd_counter_idsInv detachClient_idsInv) (simp_all add: jsIncrement_ge)
    have p2: "issued ?st2 ?pid" unfolding issued_def by auto
    have t3: "tableInv ?st3" using t2 by (rule playersSet_tableInv)
    have i3: "idsInv ?st3" using i2 p2 by (rule playersSet_idsInv)
    have p3: "issued ?st3 ?pid" using p2 by (simp add: issued_def)
    show ?thesis
      unfolding handleJoinSession_accepted [OF refl h]
      using setClientInfo_player_inv [OF t3 i3 p3] by simp
  qed
qed

lemma onMessage_inv:
  assumes "tableInv st" "idsInv st"
  shows "tableInv (onMessage s parsed now st) \<and> idsInv (onMessage s parsed now st)"
  using assms handleJoinSession_inv [OF assms, of s _ now]
  by (auto simp: onMessage_def handleCreateSession_inv handleCloseSession_inv relayFromDm_inv
      relayFromPlayer_inv split: option.splits json.splits)

lemma onClose_inv:
  assumes "tableInv st" "idsInv st"
  shows "tableInv (onClose s st) \<and> idsInv (onClose s st)"
  using assms by (simp add: onClose_def detachClient_tableInv detachClient_idsInv)

lemma heartbeatSocket_inv:
  assumes "tableInv st \<and> idsInv st"
  shows "tableInv (heartbeatSocket s st) \<and> idsInv (heartbeatSocket s st)"
  using assms by (simp add: heartbeatSocket_def detachClient_tableInv detachClient_idsInv)

lemma heartbeat_fold_inv:
  assumes "tableInv st \<and> idsInv st"
  shows "tableInv (fold heartbeatSocket xs st) \<and> idsInv (fold heartbeatSocket xs st)"
  using assms by (induction xs arbitrary: st) (simp_all add: heartbeatSocket_inv)

lemma reachable_inv:
  assumes "reachable st"
  shows "tableInv st \<and> idsInv st"
  using assms
proof (induction rule: reachable.induct)
  case r_init
  show ?case by (simp add: initState_inv)
next
  case (r_connection st)
  then show ?case by (simp add: onConnection_inv)
next
  case (r_message st s parsed now)
  then show ?case by (simp add: onMessage_inv)
next
  case (r_pong st s)
  then show ?case by (simp add: onPong_def)
next
  case (r_closing st s)
  then show ?case by simp
next
  case (r_close st s)
  then show ?case by (simp add: onClose_inv)
next
  case (r_tick st)
  then show ?case by (simp add: heartbeat_def heartbeat_fold_inv)
qed

section \<open>C3: the session table and the host bindings\<close>

lemma reachable_examples:
  "reachable exHosted" "reachable exJoined" "reachable exDeadHost" "reachable exTwoPlayers"
  "reachable exSecondHost" "reachable exLeaked"
proof -
  have c: "reachable (onConnection (onConnection (onConnection initState)))"
    by (intro reachable.intros)
  show h: "reachable exHosted"
    unfolding exHosted_def by (rule r_message [OF c]) (simp add: run_defs)
  show j: "reachable exJoined"
    unfolding exJoined_def by (rule r_message [OF h]) (simp add: ex_defs run_defs)
  show "reachable exDeadHost"
    unfolding exDeadHost_def by (rule r_closing [OF j]) (simp add: ex_defs run_defs)
  show "reachable exTwoPlayers"
    unfolding exTwoPlayers_def by (rule r_message [OF j]) (simp add: ex_defs run_defs)
  show s: "reachable exSecondHost"
    unfolding exSecondHost_def by (rule r_message [OF j]) (simp add: ex_defs run_defs)
  have "reachable (onMessage 0 (Some exClose) 0 exSecondHost)"
    by (rule r_message [OF s]) (simp add: ex_defs run_defs)
  then show "reachable exLeaked"
    unfolding exLeaked_def by (rule r_close) (simp add: ex_defs run_defs)
qed




section \<open>C8: the id a join returns\<close>

lemma handleJoinSession_outbox:
  assumes "normalizeCode (getField m ''code'') = c" "c \<noteq> []"
    "sessions st c = Some sess" "ready st (dm sess) = OPEN"
  shows "outbox (handleJoinSession s m now st) =
     outbox (detachClient s None True st)
       @ (if ready (detachClient s None True st) s = OPEN
          then [(s, SessionJoined c (formatClientId now (jsIncrement (clientCounter st))))] else [])
       @ (if ready (detachClient s None True st) (dm sess) = OPEN
          then [(dm sess, PlayerJoined (formatClientId now (jsIncrement (clientCounter st))))] else [])"
  unfolding handleJoinSession_accepted [OF assms] by simp

text \<open>
  Claim C8. In a reachable state in which fewer than \<open>2^53\<close> ids have been issued (the
  range in which the counter increments exactly), a join that succeeds binds the
  requester to the id \<open>c-<clock>-<counter + 1>\<close> and returns it in the session-joined
  notice. That id differs from every id a binding or a player map refers to before the
  join, and after the join only the requester's binding and its own entry carry it.
\<close>

theorem join_id_fresh:
  assumes "reachable st" and "clientCounter st < 2 ^ 53"
    and "isFrame ''join-session'' m" and "normalizeCode (getField m ''code'') = c"
    and "sessions st c = Some sess" and "ready st (dm sess) = OPEN"
    and "pid = formatClientId now (Suc (clientCounter st))"
    and "st' = onMessage s (Some m) now st"
  shows "infoOf st' s = Some (Player c pid)
       \<and> outbox st' = outbox (detachClient s None True st)
           @ (if ready (detachClient s None True st) s = OPEN then [(s, SessionJoined c pid)] else [])
           @ (if ready (detachClient s None True st) (dm sess) = OPEN
              then [(dm sess, PlayerJoined pid)] else [])
       \<and> (\<forall>t c' q. infoOf st t = Some (Player c' q) \<longrightarrow> q \<noteq> pid)
       \<and> (\<forall>c' sess' q p. sessions st c' = Some sess' \<and> (q, p) \<in> set (players sess') \<longrightarrow> q \<noteq> pid)
       \<and> (\<forall>t c' q. t \<noteq> s \<and> infoOf st' t = Some (Player c' q) \<longrightarrow> q \<noteq> pid)
       \<and> (\<forall>c' sess' p. sessions st' c' = Some sess' \<and> (pid, p) \<in> set (players sess') \<longrightarrow>
             c' = c \<and> p = s)"
proof -
  from reachable_inv [OF assms(1)] have t: "tableInv st" and i: "idsInv st" by simp_all
  from t assms(5) have ne: "c \<noteq> []" unfolding tableInv_def by blast
  have n: "jsIncrement (clientCounter st) = Suc (clientCounter st)"
    using assms(2) by (simp add: jsIncrement_def)
  let ?st1 = "detachClient s None True st"
  let ?st2 = "?st1\<lparr>clientCounter := Suc (clientCounter st)\<rparr>"
  have e: "st' = safeSend (dm sess) (PlayerJoined pid) (safeSend s (SessionJoined c pid)
          (setClientInfo s (Some (Player c pid)) (playersSet c pid s ?st2)))"
    using assms(3) handleJoinSession_accepted [OF assms(4) ne assms(5,6), of s now]
    by (simp add: onMessage_frame assms(7,8) n)
  have fresh: "q \<noteq> pid" if "issued st q" for q
    using issued_fresh [OF that, of "Suc (clientCounter st)" now] by (simp add: assms(7))
  have c1: "infoOf st' s = Some (Player c pid)" by (simp add: e)
  have c2: "outbox st' = outbox ?st1
           @ (if ready ?st1 s = OPEN then [(s, SessionJoined c pid)] else [])
           @ (if ready ?st1 (dm sess) = OPEN then [(dm sess, PlayerJoined pid)] else [])"
    using assms(3) handleJoinSession_outbox [OF assms(4) ne assms(5,6), of s now]
    by (simp add: onMessage_frame assms(7,8) n)
  have c3: "q \<noteq> pid" if "infoOf st t = Some (Player c' q)" for t c' q
    using i that fresh unfolding idsInv_def by blast
  have c4: "q \<noteq> pid" if "sessions st c' = Some sess'" "(q, p) \<in> set (players sess')"
    for c' sess' q p
    using i that fresh unfolding idsInv_def by blast
  have c5: "q \<noteq> pid" if "t \<noteq> s" "infoOf st' t = Some (Player c' q)" for t c' q
  proof -
    from that have "infoOf ?st1 t = Some (Player c' q)" by (simp add: e)
    from detachClient_info_kept [OF this] c3 show ?thesis by blast
  qed
  have old: "q \<noteq> pid" if "sessions ?st2 c' = Some sess'" "(q, p) \<in> set (players sess')"
    for c' sess' q p
  proof -
    from that(1) have "sessions ?st1 c' = Some sess'" by simp
    from detachClient_session_kept [OF this] that(2) c4 show ?thesis by blast
  qed
  have c6: "c' = c \<and> p = s" if "sessions st' c' = Some sess'" "(pid, p) \<in> set (players sess')"
    for c' sess' p
  proof -
    from that(1) have s3: "sessions (playersSet c pid s ?st2) c' = Some sess'" by (simp add: e)
    show ?thesis
    proof (cases "c' = c \<and> sessions ?st2 c \<noteq> None")
      case True
      then obtain cur where cur: "sessions ?st2 c = Some cur" by blast
      with True s3 have "sess' = cur\<lparr>players := AList.update pid s (players cur)\<rparr>"
        by (simp add: playersSet_sessions)
      with that(2) have "(pid, p) \<in> insert (pid, s) (set (players cur))"
        using set_update_subset [of pid s "players cur"] by auto
      with old [OF cur] True show ?thesis by auto
    next
      case False
      with s3 have "sessions ?st2 c' = Some sess'"
        by (auto simp: playersSet_sessions split: option.splits if_splits)
      from old [OF this that(2)] show ?thesis by simp
    qed
  qed
  from c1 c2 c3 c4 c5 c6 show ?thesis by blast
qed

text \<open>The theorem for the join of connection 2 into the session that holds participant 1.\<close>

theorem join_id_fresh_witness:
  "reachable exJoined \<and> clientCounter exJoined < 2 ^ 53 \<and> isFrame ''join-session'' exJoin
   \<and> infoOf exTwoPlayers 2 = Some (Player ''ABC123'' ''c-1jk-2'')
   \<and> infoOf exJoined 1 = Some (Player ''ABC123'' ''c-rs-1'')
   \<and> ''c-rs-1'' \<noteq> formatClientId 2000 (Suc (clientCounter exJoined))"
proof -
  have r: "reachable exJoined" by (rule reachable_examples)
  have k: "clientCounter exJoined < 2 ^ 53" by (simp add: ex_defs run_defs)
  have f: "isFrame ''join-session'' exJoin" by (simp add: isFrame_def exJoin_def)
  have n: "normalizeCode (getField exJoin ''code'') = ''ABC123''"
    by (simp add: ex_defs run_defs)
  have s: "sessions exJoined ''ABC123'' = Some \<lparr>code = ''ABC123'', dm = 0, players = [(''c-rs-1'', 1)]\<rparr>"
    by (fact exJoined_fields)
  have o: "ready exJoined (dm \<lparr>code = ''ABC123'', dm = 0, players = [(''c-rs-1'', 1)]\<rparr>) = OPEN"
    by (simp add: ex_defs run_defs)
  have p: "''c-1jk-2'' = formatClientId 2000 (Suc (clientCounter exJoined))"
    by (simp add: ex_defs run_defs)
  have i: "infoOf exJoined 1 = Some (Player ''ABC123'' ''c-rs-1'')" by (fact exJoined_fields)
  from join_id_fresh [OF r k f n s o p exTwoPlayers_def] i
  have "infoOf exTwoPlayers 2 = Some (Player ''ABC123'' ''c-1jk-2'')"
    and "''c-rs-1'' \<noteq> ''c-1jk-2''" by blast+
  with r k f i p show ?thesis by simp
qed

section \<open>C6: close-session\<close>



section \<open>C7: the heartbeat tears a silent connection down once\<close>

lemma detachClient_ready_open:
  assumes "ready (detachClient s r sl st) t = OPEN"
  shows "ready st t = OPEN"
  using assms
  by (auto simp: detachClient_def Let_def detachRole_ready split: option.splits info.splits if_splits)


lemma heartbeatSocket_alive:
  "\<not> isAlive (socks st s) \<Longrightarrow> \<not> isAlive (socks (heartbeatSocket t st) s)"
  by (simp add: heartbeatSocket_def)

lemma heartbeatSocket_torn:
  assumes "infoOf st s = None \<and> ready st s \<noteq> OPEN"
  shows "infoOf (heartbeatSocket t st) s = None \<and> ready (heartbeatSocket t st) s \<noteq> OPEN"
proof -
  have "infoOf (detachClient t r sl st) s = None" for r sl
    using assms detachClient_info_kept [of t r sl st s] by (cases "infoOf (detachClient t r sl st) s") auto
  moreover have "ready (detachClient t r sl st) s \<noteq> OPEN" for r sl
    using assms detachClient_ready_open [of t r sl st s] by blast
  ultimately show ?thesis
    using assms by (simp add: heartbeatSocket_def)
qed

lemma heartbeatSocket_tears:
  assumes "\<not> isAlive (socks st s)"
  shows "infoOf (heartbeatSocket s st) s = None \<and> ready (heartbeatSocket s st) s \<noteq> OPEN"
  using assms by (simp add: heartbeatSocket_def)

lemma fold_heartbeat_torn:
  assumes "infoOf st s = None \<and> ready st s \<noteq> OPEN"
  shows "infoOf (fold heartbeatSocket xs st) s = None \<and> ready (fold heartbeatSocket xs st) s \<noteq> OPEN"
  using assms by (induction xs arbitrary: st) (simp_all add: heartbeatSocket_torn)

lemma fold_heartbeat_tears:
  assumes "s \<in> set xs" "\<not> isAlive (socks st s)"
  shows "infoOf (fold heartbeatSocket xs st) s = None \<and> ready (fold heartbeatSocket xs st) s \<noteq> OPEN"
  using assms
proof (induction xs arbitrary: st)
  case Nil
  then show ?case by simp
next
  case (Cons x xs)
  show ?case
  proof (cases "x = s")
    case True
    with Cons.prems(2) show ?thesis
      by (simp add: fold_heartbeat_torn heartbeatSocket_tears)
  next
    case False
    with Cons.prems have "s \<in> set xs" by simp
    moreover have "\<not> isAlive (socks (heartbeatSocket x st) s)"
      using Cons.prems(2) by (rule heartbeatSocket_alive)
    ultimately show ?thesis
      using Cons.IH by simp
  qed
qed

lemma detachClient_host:
  assumes "infoOf st s = Some (Dm c)" "sessions st c = Some sess" "dm sess = s"
  shows "detachClient s r True st = setClientInfo s None (endSession sess (reasonOr r ''The DM disconnected.'') st)"
  using assms by (simp add: detachClient_def detachRole_def Let_def)

lemma detachClient_participant:
  assumes "infoOf st s = Some (Player c pid)" "sessions st c = Some sess"
    "map_of (players sess) pid = Some s"
  shows "detachClient s r True st =
     setClientInfo s None
       (safeSend (dm sess) (PlayerLeft pid)
          (st\<lparr>sessions := (sessions st)(c \<mapsto> sess\<lparr>players := AList.delete pid (players sess)\<rparr>)\<rparr>))"
  using assms by (simp add: detachClient_def detachRole_def Let_def safeSend_def)

lemma heartbeatSocket_tableInv:
  "tableInv st \<Longrightarrow> tableInv (heartbeatSocket t st)"
  by (simp add: heartbeatSocket_def detachClient_tableInv)

lemma heartbeatSocket_sessions:
  "sessions (heartbeatSocket t st) =
     (if \<not> isAlive (socks st t) then sessions (detachClient t (Some ''Connection timed out.'') True st)
      else sessions st)"
  by (simp add: heartbeatSocket_def)

lemma heartbeatSocket_infoOf:
  "infoOf (heartbeatSocket t st) s =
     (if \<not> isAlive (socks st t) then infoOf (detachClient t (Some ''Connection timed out.'') True st) s
      else infoOf st s)"
  by (simp add: heartbeatSocket_def)

lemma heartbeatSocket_session_kept:
  assumes "sessions (heartbeatSocket t st) c = Some sess'"
  shows "\<exists>sess. sessions st c = Some sess \<and> set (players sess') \<subseteq> set (players sess)"
  using assms detachClient_session_kept [of t "Some ''Connection timed out.''" True st c sess']
  by (auto simp: heartbeatSocket_sessions split: if_splits)

lemma fold_heartbeat_no_session:
  assumes "sessions st c = None"
  shows "sessions (fold heartbeatSocket xs st) c = None"
  using assms
proof (induction xs arbitrary: st)
  case Nil
  then show ?case by simp
next
  case (Cons x xs)
  have "sessions (heartbeatSocket x st) c = None"
    using Cons.prems heartbeatSocket_session_kept [of x st c]
    by (cases "sessions (heartbeatSocket x st) c") auto
  then show ?case using Cons.IH by simp
qed

text \<open>A socket that no player map holds keeps its binding while other sockets are torn down.\<close>

lemma detachClient_info_other:
  assumes "t \<noteq> s" "\<forall>c' sess'. sessions st c' = Some sess' \<longrightarrow> s \<notin> snd ` set (players sess')"
  shows "infoOf (detachClient t r sl st) s = infoOf st s"
  using assms
  by (auto simp: detachClient_infoOf detachRole_infoOf split: option.splits info.splits)

lemma heartbeat_removes_host_session:
  assumes "tableInv st" "s \<in> set xs" "\<not> isAlive (socks st s)" "infoOf st s = Some (Dm c)"
    "\<forall>c' sess'. sessions st c' = Some sess' \<longrightarrow> s \<notin> snd ` set (players sess')"
  shows "sessions (fold heartbeatSocket xs st) c = None"
  using assms
proof (induction xs arbitrary: st)
  case Nil
  then show ?case by simp
next
  case (Cons x xs)
  show ?case
  proof (cases "x = s")
    case True
    from Cons.prems(1,4) obtain sess where sess: "sessions st c = Some sess" "dm sess = s" "code sess = c"
      unfolding tableInv_def by blast
    have "sessions (heartbeatSocket s st) c = None"
      using Cons.prems(3,4) sess
      by (simp add: heartbeatSocket_sessions detachClient_sessions detachRole_sessions)
    then show ?thesis
      using True by (simp add: fold_heartbeat_no_session)
  next
    case False
    let ?st1 = "heartbeatSocket x st"
    have 1: "tableInv ?st1" using Cons.prems(1) by (rule heartbeatSocket_tableInv)
    have 2: "s \<in> set xs" using Cons.prems(2) False by simp
    have 3: "\<not> isAlive (socks ?st1 s)" using Cons.prems(3) by (rule heartbeatSocket_alive)
    have 4: "infoOf ?st1 s = Some (Dm c)"
      using Cons.prems(4,5) False
      by (simp add: heartbeatSocket_infoOf detachClient_info_other)
    have 5: "\<forall>c' sess'. sessions ?st1 c' = Some sess' \<longrightarrow> s \<notin> snd ` set (players sess')"
    proof (intro allI impI)
      fix c' sess'
      assume "sessions ?st1 c' = Some sess'"
      from heartbeatSocket_session_kept [OF this] Cons.prems(5)
      show "s \<notin> snd ` set (players sess')" by blast
    qed
    from Cons.IH [OF 1 2 3 4 5] show ?thesis by simp
  qed
qed

lemma detachClient_entryGone:
  assumes "entryGone st c pid s"
  shows "entryGone (detachClient t r sl st) c pid s"
  using assms
  by (auto simp: entryGone_def detachClient_sessions detachRole_sessions AList.delete_conv
      split: option.splits info.splits if_splits)

lemma heartbeatSocket_entryGone:
  assumes "entryGone st c pid s"
  shows "entryGone (heartbeatSocket t st) c pid s"
proof -
  have "entryGone (detachClient t (Some ''Connection timed out.'') True st) c pid s"
    using assms by (rule detachClient_entryGone)
  with assms show ?thesis
    by (simp add: entryGone_def heartbeatSocket_sessions)
qed

lemma fold_heartbeat_entryGone:
  assumes "entryGone st c pid s"
  shows "entryGone (fold heartbeatSocket xs st) c pid s"
  using assms by (induction xs arbitrary: st) (simp_all add: heartbeatSocket_entryGone)

lemma detachClient_own_entry:
  assumes "infoOf st s = Some (Player c pid)"
  shows "entryGone (detachClient s r sl st) c pid s"
  using assms
  by (auto simp: entryGone_def detachClient_sessions detachRole_sessions AList.delete_conv
      split: option.splits if_splits)

lemma heartbeat_removes_participant_entry:
  assumes "tableInv st" "s \<in> set xs" "\<not> isAlive (socks st s)" "infoOf st s = Some (Player c pid)"
    "\<forall>c' sess'. sessions st c' = Some sess' \<and> s \<in> snd ` set (players sess') \<longrightarrow> c' = c"
  shows "entryGone (fold heartbeatSocket xs st) c pid s"
  using assms
proof (induction xs arbitrary: st)
  case Nil
  then show ?case by simp
next
  case (Cons x xs)
  show ?case
  proof (cases "x = s")
    case True
    have "entryGone (heartbeatSocket s st) c pid s"
      using Cons.prems(3,4) detachClient_own_entry [of st s c pid "Some ''Connection timed out.''" True]
      by (simp add: entryGone_def heartbeatSocket_sessions)
    then show ?thesis
      using True by (simp add: fold_heartbeat_entryGone)
  next
    case False
    let ?st1 = "heartbeatSocket x st"
    show ?thesis
    proof (cases "infoOf ?st1 s = Some (Player c pid)")
      case True
      have 1: "tableInv ?st1" using Cons.prems(1) by (rule heartbeatSocket_tableInv)
      have 2: "s \<in> set xs" using Cons.prems(2) False by simp
      have 3: "\<not> isAlive (socks ?st1 s)" using Cons.prems(3) by (rule heartbeatSocket_alive)
      have 5: "\<forall>c' sess'. sessions ?st1 c' = Some sess' \<and> s \<in> snd ` set (players sess') \<longrightarrow> c' = c"
      proof (intro allI impI)
        fix c' sess'
        assume a: "sessions ?st1 c' = Some sess' \<and> s \<in> snd ` set (players sess')"
        then have "sessions ?st1 c' = Some sess'" ..
        from heartbeatSocket_session_kept [OF this] a Cons.prems(5)
        show "c' = c" by blast
      qed
      from Cons.IH [OF 1 2 3 True 5] show ?thesis by simp
    next
      case cleared: False
      from cleared Cons.prems(4) have dead: "\<not> isAlive (socks st x)"
        by (auto simp: heartbeatSocket_infoOf split: if_splits)
      from cleared Cons.prems(4) False dead obtain c0 sess0 where
        c0: "infoOf st x = Some (Dm c0)" "sessions st c0 = Some sess0" "dm sess0 = x"
          "s \<in> snd ` set (players sess0)"
        by (auto simp: heartbeatSocket_infoOf detachClient_infoOf detachRole_infoOf
            split: if_splits option.splits info.splits)
      from c0(2,4) Cons.prems(5) have "c0 = c" by blast
      moreover from Cons.prems(1) c0(2) have "code sess0 = c0" unfolding tableInv_def by blast
      ultimately have "sessions ?st1 c = None"
        using dead c0 by (simp add: heartbeatSocket_sessions detachClient_sessions detachRole_sessions)
      then have "entryGone ?st1 c pid s" by (simp add: entryGone_def)
      then show ?thesis by (simp add: fold_heartbeat_entryGone)
    qed
  qed
qed

text \<open>
  What holds of claim C7. Let the liveness flag of connection \<open>s\<close> be \<open>false\<close>. The
  heartbeat callback for \<open>s\<close> runs \<open>detachClient\<close>, the function the \<open>close\<close> event runs,
  and terminates the socket. If \<open>s\<close> is then bound as host of a registered session, the
  session is removed and every open participant socket gets one session-closed notice; if
  it is bound as participant with its own entry, the entry is removed and the host, if
  open, gets one player-left notice. The connection ends unbound and not open, and the
  \<open>close\<close> event that follows, or a later tick, changes the table no more and writes no
  frame. After a whole tick from a reachable state, every connection of \<open>wss.clients\<close>
  whose flag was \<open>false\<close> when the tick began is unbound and not open; the session it
  hosted is no longer registered, provided no player map holds the connection; and its
  entry as participant is gone, provided no player map of another session holds it.
\<close>

lemma heartbeat_dead_connection:
  assumes "\<not> isAlive (socks st s)" and "st' = heartbeatSocket s st"
  shows "st' = socketTerminate s (detachClient s (Some ''Connection timed out.'') True st)
       \<and> infoOf st' s = None \<and> ready st' s \<noteq> OPEN
       \<and> (\<forall>c sess. infoOf st s = Some (Dm c) \<and> sessions st c = Some sess \<and> dm sess = s
             \<and> code sess = c \<longrightarrow>
             sessions st' = (sessions st)(c := None)
             \<and> (\<exists>qs. outbox st' = outbox st
                         @ map (\<lambda>p. (p, SessionClosed (Some ''Connection timed out.''))) qs
                   \<and> distinct qs \<and> set qs = {p \<in> snd ` set (players sess). ready st p = OPEN}))
       \<and> (\<forall>c pid sess. infoOf st s = Some (Player c pid) \<and> sessions st c = Some sess
             \<and> map_of (players sess) pid = Some s \<longrightarrow>
             sessions st' = (sessions st)(c \<mapsto> sess\<lparr>players := AList.delete pid (players sess)\<rparr>)
             \<and> outbox st' = outbox st
                 @ (if ready st (dm sess) = OPEN then [(dm sess, PlayerLeft pid)] else []))
       \<and> sessions (onClose s st') = sessions st' \<and> outbox (onClose s st') = outbox st'
       \<and> sessions (heartbeatSocket s st') = sessions st'
       \<and> outbox (heartbeatSocket s st') = outbox st'
       \<and> (s \<in> set (clients st) \<longrightarrow>
             infoOf (heartbeat st) s = None \<and> ready (heartbeat st) s \<noteq> OPEN)
       \<and> (\<forall>c. reachable st \<and> s \<in> set (clients st) \<and> infoOf st s = Some (Dm c)
             \<and> (\<forall>c' sess'. sessions st c' = Some sess' \<longrightarrow> s \<notin> snd ` set (players sess')) \<longrightarrow>
             sessions (heartbeat st) c = None)
       \<and> (\<forall>c pid. reachable st \<and> s \<in> set (clients st) \<and> infoOf st s = Some (Player c pid)
             \<and> (\<forall>c' sess'. sessions st c' = Some sess' \<and> s \<in> snd ` set (players sess') \<longrightarrow> c' = c) \<longrightarrow>
             (\<forall>sess. sessions (heartbeat st) c = Some sess \<longrightarrow> map_of (players sess) pid \<noteq> Some s))"
proof -
  have e: "st' = socketTerminate s (detachClient s (Some ''Connection timed out.'') True st)"
    using assms by (simp add: heartbeatSocket_def)
  have u: "infoOf st' s = None" and n: "ready st' s \<noteq> OPEN"
    using heartbeatSocket_tears [OF assms(1)] assms(2) by simp_all
  have host: "sessions st' = (sessions st)(c := None)
             \<and> (\<exists>qs. outbox st' = outbox st
                         @ map (\<lambda>p. (p, SessionClosed (Some ''Connection timed out.''))) qs
                   \<and> distinct qs \<and> set qs = {p \<in> snd ` set (players sess). ready st p = OPEN})"
    if h: "infoOf st s = Some (Dm c) \<and> sessions st c = Some sess \<and> dm sess = s \<and> code sess = c"
    for c sess
  proof -
    have d: "detachClient s (Some ''Connection timed out.'') True st =
        setClientInfo s None (endSession sess ''Connection timed out.'' st)"
      using h by (simp add: detachClient_host reasonOr_def)
    have "sessions st' = (sessions st)(c := None)"
      using h by (simp add: e d)
    moreover have "\<exists>qs. outbox st' = outbox st
                         @ map (\<lambda>p. (p, SessionClosed (Some ''Connection timed out.''))) qs
                   \<and> distinct qs \<and> set qs = {p \<in> snd ` set (players sess). ready st p = OPEN}"
      using endSession_outbox [of sess "''Connection timed out.''" st] by (simp add: e d)
    ultimately show ?thesis ..
  qed
  have part: "sessions st' = (sessions st)(c \<mapsto> sess\<lparr>players := AList.delete pid (players sess)\<rparr>)
             \<and> outbox st' = outbox st
                 @ (if ready st (dm sess) = OPEN then [(dm sess, PlayerLeft pid)] else [])"
    if h: "infoOf st s = Some (Player c pid) \<and> sessions st c = Some sess
             \<and> map_of (players sess) pid = Some s"
    for c pid sess
    using h by (simp add: e detachClient_participant)
  have dead': "\<not> isAlive (socks st' s)"
    using assms by (simp add: heartbeatSocket_def)
  have again: "sessions (onClose s st') = sessions st'" "outbox (onClose s st') = outbox st'"
    "sessions (heartbeatSocket s st') = sessions st'" "outbox (heartbeatSocket s st') = outbox st'"
    using u dead' by (simp_all add: onClose_def heartbeatSocket_def detachClient_unbound)
  have tick: "infoOf (heartbeat st) s = None \<and> ready (heartbeat st) s \<noteq> OPEN"
    if "s \<in> set (clients st)"
    unfolding heartbeat_def using that assms(1) by (rule fold_heartbeat_tears)
  have tickHost: "sessions (heartbeat st) c = None"
    if h: "reachable st \<and> s \<in> set (clients st) \<and> infoOf st s = Some (Dm c)
             \<and> (\<forall>c' sess'. sessions st c' = Some sess' \<longrightarrow> s \<notin> snd ` set (players sess'))"
    for c
  proof -
    from h have r: "reachable st" by simp
    from reachable_inv [OF r] have t: "tableInv st" ..
    from h show ?thesis
      unfolding heartbeat_def
      by (intro heartbeat_removes_host_session [OF t _ assms(1)]) simp_all
  qed
  have tickPart: "\<forall>sess. sessions (heartbeat st) c = Some sess \<longrightarrow> map_of (players sess) pid \<noteq> Some s"
    if h: "reachable st \<and> s \<in> set (clients st) \<and> infoOf st s = Some (Player c pid)
             \<and> (\<forall>c' sess'. sessions st c' = Some sess' \<and> s \<in> snd ` set (players sess') \<longrightarrow> c' = c)"
    for c pid
  proof -
    from h have r: "reachable st" by simp
    from reachable_inv [OF r] have t: "tableInv st" ..
    from h have "entryGone (fold heartbeatSocket (clients st) st) c pid s"
      by (intro heartbeat_removes_participant_entry [OF t _ assms(1)]) simp_all
    then show ?thesis by (simp add: heartbeat_def entryGone_def)
  qed
  show ?thesis
    using e u n again tick
  proof (intro conjI)
    show "\<forall>c sess. infoOf st s = Some (Dm c) \<and> sessions st c = Some sess \<and> dm sess = s
             \<and> code sess = c \<longrightarrow>
             sessions st' = (sessions st)(c := None)
             \<and> (\<exists>qs. outbox st' = outbox st
                         @ map (\<lambda>p. (p, SessionClosed (Some ''Connection timed out.''))) qs
                   \<and> distinct qs \<and> set qs = {p \<in> snd ` set (players sess). ready st p = OPEN})"
      using host by (intro allI impI)
    show "\<forall>c pid sess. infoOf st s = Some (Player c pid) \<and> sessions st c = Some sess
             \<and> map_of (players sess) pid = Some s \<longrightarrow>
             sessions st' = (sessions st)(c \<mapsto> sess\<lparr>players := AList.delete pid (players sess)\<rparr>)
             \<and> outbox st' = outbox st
                 @ (if ready st (dm sess) = OPEN then [(dm sess, PlayerLeft pid)] else [])"
      using part by (intro allI impI)
    show "\<forall>c. reachable st \<and> s \<in> set (clients st) \<and> infoOf st s = Some (Dm c)
             \<and> (\<forall>c' sess'. sessions st c' = Some sess' \<longrightarrow> s \<notin> snd ` set (players sess')) \<longrightarrow>
             sessions (heartbeat st) c = None"
      using tickHost by (intro allI impI)
    show "\<forall>c pid. reachable st \<and> s \<in> set (clients st) \<and> infoOf st s = Some (Player c pid)
             \<and> (\<forall>c' sess'. sessions st c' = Some sess' \<and> s \<in> snd ` set (players sess') \<longrightarrow> c' = c) \<longrightarrow>
             (\<forall>sess. sessions (heartbeat st) c = Some sess \<longrightarrow> map_of (players sess) pid \<noteq> Some s)"
    proof (rule allI, rule allI, rule impI)
      fix c pid
      assume "reachable st \<and> s \<in> set (clients st) \<and> infoOf st s = Some (Player c pid)
             \<and> (\<forall>c' sess'. sessions st c' = Some sess' \<and> s \<in> snd ` set (players sess') \<longrightarrow> c' = c)"
      then show "\<forall>sess. sessions (heartbeat st) c = Some sess \<longrightarrow> map_of (players sess) pid \<noteq> Some s"
        by (rule tickPart)
    qed
  qed (simp_all)
qed

lemma exSilent_fields:
  "isAlive (socks exSilent 0) = False" "isAlive (socks exSilent 1) = False"
  "isAlive (socks exSilent 2) = False"
  "infoOf exSilent 0 = Some (Dm ''ABC123'')"
  "infoOf exSilent 1 = Some (Player ''ABC123'' ''c-rs-1'')"
  "sessions exSilent ''ABC123'' =
     Some \<lparr>code = ''ABC123'', dm = 0, players = [(''c-rs-1'', 1), (''c-1jk-2'', 2)]\<rparr>"
  "ready exSilent 0 = OPEN" "ready exSilent 1 = OPEN" "ready exSilent 2 = OPEN"
  "clients exSilent = [0, 1, 2]"
  by (simp_all add: ex_defs run_defs)

text \<open>
  The lemma after a tick that nobody answered: the step for host 0, the step for
  participant 1, and the whole second tick.
\<close>

lemma heartbeat_dead_connection_example:
  "\<not> isAlive (socks exSilent 0) \<and> \<not> isAlive (socks exSilent 1)
   \<and> sessions (heartbeatSocket 0 exSilent) = (sessions exSilent)(''ABC123'' := None)
   \<and> sessions (heartbeatSocket 1 exSilent) = (sessions exSilent)(''ABC123'' \<mapsto>
        \<lparr>code = ''ABC123'', dm = 0, players = [(''c-1jk-2'', 2)]\<rparr>)
   \<and> outbox (heartbeatSocket 1 exSilent) = outbox exSilent @ [(0, PlayerLeft ''c-rs-1'')]
   \<and> outbox (onClose 1 (heartbeatSocket 1 exSilent)) = outbox (heartbeatSocket 1 exSilent)
   \<and> infoOf (heartbeat exSilent) 0 = None \<and> infoOf (heartbeat exSilent) 1 = None
   \<and> ready (heartbeat exSilent) 0 \<noteq> OPEN \<and> ready (heartbeat exSilent) 1 \<noteq> OPEN
   \<and> reachable exSilent \<and> sessions (heartbeat exSilent) ''ABC123'' = None"
proof -
  let ?sess = "\<lparr>code = ''ABC123'', dm = 0, players = [(''c-rs-1'', 1), (''c-1jk-2'', 2)]\<rparr>"
  have d0: "\<not> isAlive (socks exSilent 0)" and d1: "\<not> isAlive (socks exSilent 1)"
    using exSilent_fields(1,2) by simp_all
  note t0 = heartbeat_dead_connection [OF d0 refl]
  note t1 = heartbeat_dead_connection [OF d1 refl]
  have h0: "infoOf exSilent 0 = Some (Dm ''ABC123'') \<and> sessions exSilent ''ABC123'' = Some ?sess
      \<and> dm ?sess = 0 \<and> code ?sess = ''ABC123''"
    using exSilent_fields(4,6) by simp
  have h1: "infoOf exSilent 1 = Some (Player ''ABC123'' ''c-rs-1'') \<and> sessions exSilent ''ABC123'' = Some ?sess
      \<and> map_of (players ?sess) ''c-rs-1'' = Some 1"
    using exSilent_fields(5,6) by simp
  have c0: "0 \<in> set (clients exSilent)" and c1: "1 \<in> set (clients exSilent)"
    using exSilent_fields(10) by simp_all
  from t0 have "\<forall>c sess. infoOf exSilent 0 = Some (Dm c) \<and> sessions exSilent c = Some sess
      \<and> dm sess = 0 \<and> code sess = c \<longrightarrow> sessions (heartbeatSocket 0 exSilent) = (sessions exSilent)(c := None)"
    by blast
  with h0 have a: "sessions (heartbeatSocket 0 exSilent) = (sessions exSilent)(''ABC123'' := None)"
    by blast
  from t1 have "\<forall>c pid sess. infoOf exSilent 1 = Some (Player c pid) \<and> sessions exSilent c = Some sess
             \<and> map_of (players sess) pid = Some 1 \<longrightarrow>
             sessions (heartbeatSocket 1 exSilent) =
               (sessions exSilent)(c \<mapsto> sess\<lparr>players := AList.delete pid (players sess)\<rparr>)
             \<and> outbox (heartbeatSocket 1 exSilent) = outbox exSilent
                 @ (if ready exSilent (dm sess) = OPEN then [(dm sess, PlayerLeft pid)] else [])"
    by blast
  with h1 have "sessions (heartbeatSocket 1 exSilent) =
               (sessions exSilent)(''ABC123'' \<mapsto> ?sess\<lparr>players := AList.delete ''c-rs-1'' (players ?sess)\<rparr>)
             \<and> outbox (heartbeatSocket 1 exSilent) = outbox exSilent
                 @ (if ready exSilent (dm ?sess) = OPEN then [(dm ?sess, PlayerLeft ''c-rs-1'')] else [])"
    by blast
  then have b: "sessions (heartbeatSocket 1 exSilent) = (sessions exSilent)(''ABC123'' \<mapsto>
        \<lparr>code = ''ABC123'', dm = 0, players = [(''c-1jk-2'', 2)]\<rparr>)"
    and c: "outbox (heartbeatSocket 1 exSilent) = outbox exSilent @ [(0, PlayerLeft ''c-rs-1'')]"
    using exSilent_fields(7) by (simp_all add: AList.delete_eq)
  from t1 have e: "outbox (onClose 1 (heartbeatSocket 1 exSilent)) = outbox (heartbeatSocket 1 exSilent)"
    by blast
  from t0 c0 have f0: "infoOf (heartbeat exSilent) 0 = None \<and> ready (heartbeat exSilent) 0 \<noteq> OPEN"
    by blast
  from t1 c1 have f1: "infoOf (heartbeat exSilent) 1 = None \<and> ready (heartbeat exSilent) 1 \<noteq> OPEN"
    by blast
  have r: "reachable exSilent"
    unfolding exSilent_def by (intro r_tick reachable_examples)
  have ns: "\<forall>c' sess'. sessions exSilent c' = Some sess' \<longrightarrow> 0 \<notin> snd ` set (players sess')"
    by (simp add: ex_defs run_defs)
  from t0 have "\<forall>c. reachable exSilent \<and> 0 \<in> set (clients exSilent) \<and> infoOf exSilent 0 = Some (Dm c)
             \<and> (\<forall>c' sess'. sessions exSilent c' = Some sess' \<longrightarrow> 0 \<notin> snd ` set (players sess')) \<longrightarrow>
             sessions (heartbeat exSilent) c = None"
    by blast
  with r c0 exSilent_fields(4) ns have g: "sessions (heartbeat exSilent) ''ABC123'' = None"
    by blast
  from d0 d1 a b c e f0 f1 r g show ?thesis by blast
qed

text \<open>
  Claim C7 at a connection that a player map still holds. Connection 1, participant of
  \<open>ABC123\<close>, became host of \<open>XYZ\<close> by a create-session frame, which left its entry in the
  player map of \<open>ABC123\<close> behind. Nobody answers the first tick. When the second tick
  begins, connection 1 is open, its flag is \<open>false\<close> and it hosts \<open>XYZ\<close>. The tick reaches
  host 0 first, whose \<open>endSession\<close> clears the binding of 1; \<open>detachClient\<close> then finds
  connection 1 unbound. After the tick connection 1 is torn down and the session \<open>XYZ\<close> is
  still registered.
\<close>

theorem heartbeat_leaves_session:
  "clients (heartbeat exSecondHost) = [0, 1, 2]
   \<and> isAlive (socks (heartbeat exSecondHost) 1) = False
   \<and> ready (heartbeat exSecondHost) 1 = OPEN
   \<and> infoOf (heartbeat exSecondHost) 1 = Some (Dm ''XYZ'')
   \<and> sessions (heartbeat exSecondHost) ''XYZ'' = Some \<lparr>code = ''XYZ'', dm = 1, players = []\<rparr>
   \<and> infoOf (heartbeat (heartbeat exSecondHost)) 1 = None
   \<and> ready (heartbeat (heartbeat exSecondHost)) 1 = CLOSING
   \<and> sessions (heartbeat (heartbeat exSecondHost)) ''XYZ'' =
        Some \<lparr>code = ''XYZ'', dm = 1, players = []\<rparr>"
  by (simp add: ex_defs run_defs)

text \<open>
  So the tick that tore the host of \<open>XYZ\<close> down left the table entry of \<open>XYZ\<close> as it was,
  and the \<open>close\<close> event of connection 1 does not remove it either.
\<close>

theorem heartbeat_leaves_session_witness:
  "sessions (heartbeat (heartbeat exSecondHost)) ''XYZ'' = sessions (heartbeat exSecondHost) ''XYZ''
   \<and> sessions (heartbeat (heartbeat exSecondHost)) ''XYZ'' \<noteq> None
   \<and> sessions (onClose 1 (heartbeat (heartbeat exSecondHost))) ''XYZ'' \<noteq> None"
proof -
  note t = heartbeat_leaves_session
  have a: "sessions (heartbeat (heartbeat exSecondHost)) ''XYZ'' = sessions (heartbeat exSecondHost) ''XYZ''"
    using t by simp
  have b: "sessions (heartbeat (heartbeat exSecondHost)) ''XYZ'' \<noteq> None"
    using t by simp
  have u: "infoOf (heartbeat (heartbeat exSecondHost)) 1 = None"
    using t by simp
  have "sessions (onClose 1 (heartbeat (heartbeat exSecondHost))) =
      sessions (heartbeat (heartbeat exSecondHost))"
    using u by (simp add: onClose_def detachClient_unbound)
  with b have c: "sessions (onClose 1 (heartbeat (heartbeat exSecondHost))) ''XYZ'' \<noteq> None"
    by simp
  from a b c show ?thesis by blast
qed

end
